theory Spec2Isabelle
  imports Complex_Main "HOL-Library.Char_ord" "HOL-Library.List_Lexorder" "HOL-Library.AList"
begin

section \<open>Conventions of the embedding\<close>

text \<open>
  The program is \<^verbatim>\<open>src/sync_strava.py\<close>. Its pure core (normalising an API activity,
  merging, week indexing, analysis, prediction, status) is translated function by function.

  \<^item> A Python dictionary with a fixed set of keys is a record; the dictionary \<^verbatim>\<open>master\<close>,
    whose iteration order the code relies on, is an association list in insertion order.
  \<^item> Python integers are \<open>int\<close>.
  \<^item> A Python float is the rational that is its exact value (\<open>rat\<close>); infinities and NaN
    are outside the model. The first rendering of the code computes with exact operations:
    every arithmetic operation is exact and \<^verbatim>\<open>round(x, n)\<close> rounds the exact value
    half-to-even, so it differs from the program where a binary float falls on or beside a
    decimal tie. The merger and the analyser are therefore given a second time with the
    float operations as parameters; what is proved there for all operations holds for
    binary floats too, and the exact rendering is its instance used for evaluation. The
    only irrational operation of the program, the power in \<^verbatim>\<open>riegel\<close>, is modelled over
    the reals.
  \<^item> The heart rate of a row is \<^verbatim>\<open>""\<close> or a number: \<open>None\<close> stands for the empty string.
  \<^item> A raised exception is the left summand of a sum type.
\<close>

datatype error = ValueError | ZeroDivisionError | KeyError

subsection \<open>Numbers and their text\<close>

definition round_half_even :: "'a :: floor_ceiling \<Rightarrow> int" where
  \<comment> \<open>\<^verbatim>\<open>round(x)\<close>: the nearest integer, ties to the even one.\<close>
  "round_half_even x =
     (let f = \<lfloor>x\<rfloor>; r = x - of_int f
      in if r < 1 / 2 then f else if 1 / 2 < r then f + 1
         else if even f then f else f + 1)"

definition py_round :: "nat \<Rightarrow> rat \<Rightarrow> rat" where
  \<comment> \<open>\<^verbatim>\<open>round(x, nd)\<close> with exact operations: the exact value of \<open>x\<close> is rounded half-to-even
      and the result is not rounded to a binary float.\<close>
  "py_round nd x = of_int (round_half_even (x * 10 ^ nd)) / 10 ^ nd"

definition digit_char :: "nat \<Rightarrow> char" where
  "digit_char d = char_of (48 + d)"

fun str_nat :: "nat \<Rightarrow> string" where
  "str_nat n = (if n < 10 then [digit_char n] else str_nat (n div 10) @ [digit_char (n mod 10)])"

declare str_nat.simps [simp del]

definition str_int :: "int \<Rightarrow> string" where
  \<comment> \<open>\<^verbatim>\<open>str(i)\<close> and the format \<^verbatim>\<open>{i}\<close> of an integer.\<close>
  "str_int i = (if i < 0 then CHR ''-'' # str_nat (nat (- i)) else str_nat (nat i))"

definition fmt_02d :: "int \<Rightarrow> string" where
  \<comment> \<open>The format \<^verbatim>\<open>{i:02d}\<close>: zeros after the sign up to a width of two.\<close>
  "fmt_02d i =
     (if i < 0 then str_int i
      else if i < 10 then CHR ''0'' # str_int i else str_int i)"

subsection \<open>Constants\<close>

record ymd =
  year :: int
  month :: int
  day :: int

definition PLAN_START :: ymd where
  "PLAN_START = \<lparr>year = 2025, month = 12, day = 22\<rparr>"

definition TARGET_SECS :: int where
  "TARGET_SECS = 9300"

definition TARGET_DIST_M :: int where
  "TARGET_DIST_M = 42195"

definition HM_PB_SECS :: int where
  "HM_PB_SECS = 4380"

definition HM_DIST_M :: rat where
  "HM_DIST_M = 42195 / 2"

section \<open>Week indexer\<close>

text \<open>
  \<^verbatim>\<open>datetime.strptime(s, "%Y-%m-%d")\<close> accepts four digits, a hyphen, a month written
  \<^verbatim>\<open>1[0-2]|0[1-9]|[1-9]\<close>, a hyphen and a day written
  \<^verbatim>\<open>3[0-1]|[1-2]\d|0[1-9]|[1-9]| [1-9]\<close>, with nothing left over; it raises ValueError
  otherwise, and also for year 0 and for a day the month does not have.
  The difference of two dates is the difference of their proleptic Gregorian ordinals.
\<close>

definition is_digit :: "char \<Rightarrow> bool" where
  \<comment> \<open>The ASCII digits; a \<open>char\<close> is a byte, so the other Unicode digits that \<^verbatim>\<open>\d\<close>
      accepts are outside the model.\<close>
  "is_digit c = (c \<in> set ''0123456789'')"

definition digit_val :: "char \<Rightarrow> int" where
  "digit_val c = int (of_char c) - 48"

fun parse_year :: "string \<Rightarrow> int option" where
  "parse_year [a, b, c, d] =
     (if is_digit a \<and> is_digit b \<and> is_digit c \<and> is_digit d
      then Some (1000 * digit_val a + 100 * digit_val b + 10 * digit_val c + digit_val d)
      else None)"
| "parse_year _ = None"

fun parse_month :: "string \<Rightarrow> int option" where
  "parse_month [a] = (if is_digit a \<and> a \<noteq> CHR ''0'' then Some (digit_val a) else None)"
| "parse_month [a, b] =
     (if a = CHR ''1'' \<and> b \<in> set ''012'' then Some (10 + digit_val b)
      else if a = CHR ''0'' \<and> is_digit b \<and> b \<noteq> CHR ''0'' then Some (digit_val b)
      else None)"
| "parse_month _ = None"

fun parse_day :: "string \<Rightarrow> int option" where
  "parse_day [a] = (if is_digit a \<and> a \<noteq> CHR ''0'' then Some (digit_val a) else None)"
| "parse_day [a, b] =
     (if a = CHR ''3'' \<and> b \<in> set ''01'' then Some (30 + digit_val b)
      else if a \<in> set ''12'' \<and> is_digit b then Some (10 * digit_val a + digit_val b)
      else if a \<in> set ''0 '' \<and> is_digit b \<and> b \<noteq> CHR ''0'' then Some (digit_val b)
      else None)"
| "parse_day _ = None"

definition is_leap :: "int \<Rightarrow> bool" where
  "is_leap y = (y mod 4 = 0 \<and> (y mod 100 \<noteq> 0 \<or> y mod 400 = 0))"

definition days_in_month :: "int \<Rightarrow> int \<Rightarrow> int" where
  "days_in_month y m =
     (if m = 2 then (if is_leap y then 29 else 28)
      else if m \<in> {4, 6, 9, 11} then 30 else 31)"

definition days_before_year :: "int \<Rightarrow> int" where
  "days_before_year y = (y - 1) * 365 + (y - 1) div 4 - (y - 1) div 100 + (y - 1) div 400"

definition days_before_month :: "int \<Rightarrow> int \<Rightarrow> int" where
  "days_before_month y m =
     [0, 0, 31, 59, 90, 120, 151, 181, 212, 243, 273, 304, 334] ! nat m
       + (if 2 < m \<and> is_leap y then 1 else 0)"

definition toordinal :: "ymd \<Rightarrow> int" where
  "toordinal d = days_before_year (year d) + days_before_month (year d) (month d) + day d"

definition strptime_ymd :: "string \<Rightarrow> error + ymd" where
  "strptime_ymd s =
     (let m_d = drop 5 s;
          m_str = takeWhile (\<lambda>c. c \<noteq> CHR ''-'') m_d;
          d_str = drop (length m_str + 1) m_d
      in if length m_str < length m_d \<and> take 1 (drop 4 s) = ''-'' then
           (case (parse_year (take 4 s), parse_month m_str, parse_day d_str) of
              (Some y, Some m, Some d) \<Rightarrow>
                if 1 \<le> y \<and> d \<le> days_in_month y m
                then Inr \<lparr>year = y, month = m, day = d\<rparr> else Inl ValueError
            | _ \<Rightarrow> Inl ValueError)
         else Inl ValueError)"

definition plan_week :: "string \<Rightarrow> error + int option" where
  "plan_week date_str =
     (case strptime_ymd date_str of
        Inl e \<Rightarrow> Inl e
      | Inr d \<Rightarrow>
          (let days = toordinal d - toordinal PLAN_START
           in if days < 0 then Inr None
              else (let w = days div 7 + 1
                    in Inr (if 1 \<le> w \<and> w \<le> 18 then Some w else None))))"

definition week_formula :: "int \<Rightarrow> int option" where
  \<comment> \<open>The specification's wording: \<open>floor(days / 7) + 1\<close> when it lies in 1..18, else no week.\<close>
  "week_formula days =
     (if 1 \<le> days div 7 + 1 \<and> days div 7 + 1 \<le> 18 then Some (days div 7 + 1) else None)"

section \<open>Status builder\<close>

record status_summary =
  label :: string
  status :: string
  predicted_time :: string
  predicted_seconds :: int
  target_seconds :: int
  delta_seconds :: int

definition em_dash :: string where
  \<comment> \<open>U+2014 in UTF-8.\<close>
  "em_dash = [char_of (226 :: nat), char_of (128 :: nat), char_of (148 :: nat)]"

definition build_status :: "int \<Rightarrow> status_summary" where
  \<comment> \<open>The fields that \<^verbatim>\<open>build_status\<close> computes from \<^verbatim>\<open>pred_secs\<close>; the others are copies
      of the analysis, the week-9 distance and the clock.\<close>
  "build_status pred_secs =
     (let delta = TARGET_SECS - pred_secs;
          ph = pred_secs div 3600;
          pm = (pred_secs mod 3600) div 60;
          ps = pred_secs mod 60;
          pred_str = str_int ph @ '':'' @ fmt_02d pm @ '':'' @ fmt_02d ps;
          (st, lb) =
            (if 180 < delta then
               (''AHEAD'', ''AHEAD OF TARGET '' @ em_dash @ '' ON FOR '' @ pred_str)
             else if - 60 \<le> delta then
               (''ON TRACK'', ''ON TRACK FOR '' @ pred_str)
             else if - 300 \<le> delta then
               (''CLOSE'', ''CLOSE '' @ em_dash @ '' '' @ pred_str @ '' PROJECTED'')
             else
               (''OFF PACE'', ''NEEDS WORK '' @ em_dash @ '' '' @ pred_str @ '' PROJECTED''))
      in \<lparr>label = lb, status = st, predicted_time = pred_str,
          predicted_seconds = pred_secs, target_seconds = TARGET_SECS,
          delta_seconds = delta\<rparr>)"

section \<open>Records and the normaliser of API activities\<close>

record row =
  activity_id :: string
  date :: string
  name :: string
  distance_km :: rat
  moving_secs :: int
  avg_hr :: "rat option"

datatype json_id = IdInt int | IdStr string

datatype json_field = Absent | Null | Num rat

text \<open>
  An activity object of the API: \<^verbatim>\<open>id\<close> and \<^verbatim>\<open>start_date_local\<close> are read with
  \<^verbatim>\<open>a[...]\<close> and are always there; the keys read with \<^verbatim>\<open>a.get\<close> may be missing (\<open>None\<close>,
  \<open>Absent\<close>), and the heart rate may also be JSON null.
\<close>

record api_activity =
  api_id :: json_id
  start_date_local :: string
  api_name :: "string option"
  distance :: "rat option"
  moving_time :: "rat option"
  average_heartrate :: json_field

definition py_int :: "rat \<Rightarrow> int" where
  \<comment> \<open>\<^verbatim>\<open>int(x)\<close> truncates towards zero.\<close>
  "py_int x = (if x < 0 then \<lceil>x\<rceil> else \<lfloor>x\<rfloor>)"

definition truthy :: "rat option \<Rightarrow> bool" where
  \<comment> \<open>Python's truth value of a heart rate: the empty string and zero are false.\<close>
  "truthy h = (case h of None \<Rightarrow> False | Some v \<Rightarrow> v \<noteq> 0)"

definition norm_api :: "api_activity \<Rightarrow> row" where
  \<comment> \<open>\<^verbatim>\<open>x or ""\<close> keeps a heart rate that is a number other than zero.\<close>
  "norm_api a =
     \<lparr>activity_id = (case api_id a of IdInt i \<Rightarrow> str_int i | IdStr s \<Rightarrow> s),
      date = take 10 (start_date_local a),
      name = (case api_name a of None \<Rightarrow> [] | Some s \<Rightarrow> s),
      distance_km = py_round 2 ((case distance a of None \<Rightarrow> 0 | Some d \<Rightarrow> d) / 1000),
      moving_secs = py_int (case moving_time a of None \<Rightarrow> 0 | Some t \<Rightarrow> t),
      avg_hr = (case average_heartrate a of
                  Num h \<Rightarrow> if h \<noteq> 0 then Some h else None
                | _ \<Rightarrow> None)\<rparr>"

section \<open>Merger\<close>

type_synonym master = "(string \<times> row) list"

definition dup_key :: "row \<Rightarrow> string \<times> rat" where
  "dup_key r = (date r, py_round 1 (distance_km r))"

fun set_hr_first :: "(row \<Rightarrow> bool) \<Rightarrow> rat option \<Rightarrow> master \<Rightarrow> master" where
  \<comment> \<open>\<^verbatim>\<open>existing["avg_hr"] = h\<close>, where \<^verbatim>\<open>existing\<close> is the first value of the
      dictionary that satisfies the test: the value is changed where it is stored.\<close>
  "set_hr_first P h [] = []"
| "set_hr_first P h ((k, v) # m) =
     (if P v then (k, v\<lparr>avg_hr := h\<rparr>) # m else (k, v) # set_hr_first P h m)"

definition export_step :: "row \<Rightarrow> master \<Rightarrow> master" where
  "export_step r m = AList.update (activity_id r) r m"

definition api_step :: "row \<Rightarrow> master \<Rightarrow> master" where
  \<comment> \<open>One turn of the loop over \<^verbatim>\<open>api_rows\<close>. A row found by the scan is a dictionary
      with six keys, so \<^verbatim>\<open>if existing\<close> holds exactly when the scan finds one.\<close>
  "api_step r m =
     (if activity_id r \<in> fst ` set m then
        (if truthy (avg_hr r)
         then AList.map_entry (activity_id r) (\<lambda>v. v\<lparr>avg_hr := avg_hr r\<rparr>) m
         else m)
      else
        (case find (\<lambda>v. dup_key v = dup_key r) (map snd m) of
           Some existing \<Rightarrow>
             (if truthy (avg_hr r)
              then set_hr_first (\<lambda>v. dup_key v = dup_key r) (avg_hr r) m
              else m)
         | None \<Rightarrow> AList.update (activity_id r) r m))"

definition merge_master :: "row list \<Rightarrow> row list \<Rightarrow> master" where
  \<comment> \<open>The dictionary \<^verbatim>\<open>master\<close> after both loops.\<close>
  "merge_master export_rows api_rows = fold api_step api_rows (fold export_step export_rows [])"

definition merge :: "row list \<Rightarrow> row list \<Rightarrow> row list" where
  "merge export_rows api_rows = sort_key date (map snd (merge_master export_rows api_rows))"


definition keyed :: "master \<Rightarrow> bool" where
  \<comment> \<open>The invariant of \<^verbatim>\<open>master\<close>: keys are distinct and each value is stored under its own id.\<close>
  "keyed m = (distinct (map fst m) \<and> map (\<lambda>p. activity_id (snd p)) m = map fst m)"

section \<open>Inputs of the examples\<close>

definition run_b :: row where
  "run_b = \<lparr>activity_id = ''B'', date = ''2025-12-22'', name = ''Morning Run'',
            distance_km = 10, moving_secs = 2400, avg_hr = Some 150\<rparr>"

section \<open>Aerobic-efficiency analyser\<close>

record point =
  pt_date :: string
  pt_speed :: rat
  pt_hr :: rat
  pt_ae :: rat
  pt_dist_km :: rat

record week_stats =
  wk_ae :: rat
  wk_avg_hr :: rat
  wk_avg_pace_minkm :: rat
  wk_n :: nat

record analysis =
  by_week :: "(int \<times> week_stats) list"
  ae_trend :: string
  ae_trend_pct :: "rat option"
  ae_delta_wk :: "rat option"
  hr_at_mp :: "rat option"
  red_zone_hr :: rat
  hr_buffer :: "rat option"
  current_week :: "int option"

definition hr_runs :: "row list \<Rightarrow> row list" where
  "hr_runs rows = filter (\<lambda>r. truthy (avg_hr r) \<and> 0 < moving_secs r \<and> 5 \<le> distance_km r) rows"

fun dd_append :: "int \<Rightarrow> point \<Rightarrow> (int \<times> point list) list \<Rightarrow> (int \<times> point list) list" where
  \<comment> \<open>\<^verbatim>\<open>by_week[w].append(p)\<close> on a \<^verbatim>\<open>defaultdict(list)\<close>.\<close>
  "dd_append w p [] = [(w, [p])]"
| "dd_append w p ((k, ps) # m) = (if k = w then (k, ps @ [p]) # m else (k, ps) # dd_append w p m)"

definition make_point :: "row \<Rightarrow> rat \<Rightarrow> point" where
  \<comment> \<open>The point of a run whose heart rate is the number \<open>h\<close>; the divisors are positive on
      the rows of \<open>hr_runs\<close>.\<close>
  "make_point r h =
     (let speed = distance_km r * 1000 / of_int (moving_secs r);
          ae = speed / h * 1000
      in \<lparr>pt_date = date r, pt_speed = speed, pt_hr = h, pt_ae = ae,
          pt_dist_km = distance_km r\<rparr>)"

fun group_runs :: "row list \<Rightarrow> (int \<times> point list) list \<Rightarrow> error + (int \<times> point list) list" where
  \<comment> \<open>The loop that fills \<^verbatim>\<open>by_week\<close>; \<^verbatim>\<open>float("")\<close> would raise ValueError.\<close>
  "group_runs [] bw = Inr bw"
| "group_runs (r # rs) bw =
     (case plan_week (date r) of
        Inl e \<Rightarrow> Inl e
      | Inr None \<Rightarrow> group_runs rs bw
      | Inr (Some w) \<Rightarrow>
          if w = 0 then group_runs rs bw
          else (case avg_hr r of
                  None \<Rightarrow> Inl ValueError
                | Some h \<Rightarrow> group_runs rs (dd_append w (make_point r h) bw)))"

definition week_stats_of :: "point list \<Rightarrow> week_stats" where
  "week_stats_of runs =
     \<lparr>wk_ae = py_round 4 (sum_list (map pt_ae runs) / of_nat (length runs)),
      wk_avg_hr = py_round 1 (sum_list (map pt_hr runs) / of_nat (length runs)),
      wk_avg_pace_minkm =
        py_round 2 (sum_list (map (\<lambda>r. 1000 / pt_speed r / 60) runs) / of_nat (length runs)),
      wk_n = length runs\<rparr>"

definition make_wk_ae :: "(int \<times> point list) list \<Rightarrow> (int \<times> week_stats) list" where
  \<comment> \<open>The dictionary \<^verbatim>\<open>wk_ae\<close>, filled in the order of \<^verbatim>\<open>sorted(by_week.items())\<close>.\<close>
  "make_wk_ae bw = map (\<lambda>(w, runs). (w, week_stats_of runs)) (sort_key fst bw)"

fun lookup_ae :: "(int \<times> week_stats) list \<Rightarrow> int list \<Rightarrow> error + rat list" where
  \<comment> \<open>\<^verbatim>\<open>[wk_ae[w]["ae"] for w in ws]\<close>.\<close>
  "lookup_ae wk [] = Inr []"
| "lookup_ae wk (w # ws) =
     (case map_of wk w of
        None \<Rightarrow> Inl KeyError
      | Some s \<Rightarrow> (case lookup_ae wk ws of Inl e \<Rightarrow> Inl e | Inr xs \<Rightarrow> Inr (wk_ae s # xs)))"

definition trend :: "(int \<times> week_stats) list \<Rightarrow> error + string \<times> rat option" where
  "trend wk =
     (let wks = sort (map fst wk) in
      if 2 \<le> length wks then
        (let mid = length wks div 2 in
         case lookup_ae wk (take mid wks) of
           Inl e \<Rightarrow> Inl e
         | Inr firsts \<Rightarrow>
             (let first_ae = sum_list firsts / of_nat mid in
              case lookup_ae wk (drop mid wks) of
                Inl e \<Rightarrow> Inl e
              | Inr seconds \<Rightarrow>
                  (let second_ae = sum_list seconds / of_nat (length wks - mid) in
                   if first_ae = 0 then Inl ZeroDivisionError
                   else (let ae_pct = py_round 1 ((second_ae - first_ae) / first_ae * 100)
                         in Inr (if 1 < ae_pct then ''improving''
                                 else if ae_pct < - 1 then ''declining''
                                 else ''stable'', Some ae_pct)))))
      else Inr (''insufficient data'', None))"

definition mp_speed :: rat where
  "mp_speed = of_int TARGET_DIST_M / of_int TARGET_SECS"

definition regression_denom :: "point list \<Rightarrow> rat" where
  "regression_denom all_pts =
     of_nat (length all_pts) * sum_list (map (\<lambda>r. pt_speed r ^ 2) all_pts)
       - sum_list (map pt_speed all_pts) * sum_list (map pt_speed all_pts)"

definition regression :: "point list \<Rightarrow> rat option" where
  \<comment> \<open>\<^verbatim>\<open>hr_at_mp\<close>: least squares of heart rate against speed, read at marathon pace.\<close>
  "regression all_pts =
     (if 3 \<le> length all_pts then
        (let n = of_nat (length all_pts);
             sx = sum_list (map pt_speed all_pts);
             sy = sum_list (map pt_hr all_pts);
             sxy = sum_list (map (\<lambda>r. pt_speed r * pt_hr r) all_pts);
             sx2 = sum_list (map (\<lambda>r. pt_speed r ^ 2) all_pts);
             denom = n * sx2 - sx * sx
         in if denom \<noteq> 0 then
              (let a = (n * sxy - sx * sy) / denom;
                   b = (sy - a * sx) / n
               in Some (py_round 1 (a * mp_speed + b)))
            else None)
      else None)"

definition max_avg_hr :: "row list \<Rightarrow> error + rat" where
  \<comment> \<open>\<^verbatim>\<open>max((float(r["avg_hr"]) for r in hr_runs), default=175)\<close>.\<close>
  "max_avg_hr runs =
     (case those (map avg_hr runs) of
        None \<Rightarrow> Inl ValueError
      | Some [] \<Rightarrow> Inr 175
      | Some (h # hs) \<Rightarrow> Inr (fold max hs h))"

definition est_max_hr :: "rat \<Rightarrow> rat" where
  "est_max_hr m = m * (112 / 100)"

definition red_zone :: "rat \<Rightarrow> rat" where
  "red_zone m = py_round 1 (est_max_hr m * (90 / 100))"

definition buffer :: "rat \<Rightarrow> rat option \<Rightarrow> rat option" where
  \<comment> \<open>\<^verbatim>\<open>round(red_zone_hr - hr_at_mp, 1) if hr_at_mp else None\<close>.\<close>
  "buffer red hr_mp =
     (case hr_mp of
        None \<Rightarrow> None
      | Some h \<Rightarrow> if h \<noteq> 0 then Some (py_round 1 (red - h)) else None)"

definition delta_wk :: "(int \<times> week_stats) list \<Rightarrow> error + rat option" where
  "delta_wk wk =
     (let wks = sort (map fst wk) in
      if 2 \<le> length wks then
        (let current_wk = last wks; prev_wk = wks ! (length wks - 2) in
         if current_wk \<noteq> 0 \<and> prev_wk \<noteq> 0 then
           (case lookup_ae wk [current_wk, prev_wk] of
              Inr [c, p] \<Rightarrow>
                if p = 0 then Inl ZeroDivisionError
                else Inr (Some (py_round 1 ((c - p) / p * 100)))
            | Inr _ \<Rightarrow> Inl KeyError
            | Inl e \<Rightarrow> Inl e)
         else Inr None)
      else Inr None)"

definition analyse :: "row list \<Rightarrow> error + analysis" where
  "analyse rows =
     (let runs = hr_runs rows in
      case group_runs runs [] of
        Inl e \<Rightarrow> Inl e
      | Inr bw \<Rightarrow>
          (let wk = make_wk_ae bw in
           case trend wk of
             Inl e \<Rightarrow> Inl e
           | Inr (tr, pct) \<Rightarrow>
               (let all_pts = concat (map snd bw);
                    hr_mp = regression all_pts
                in case max_avg_hr runs of
                     Inl e \<Rightarrow> Inl e
                   | Inr m \<Rightarrow>
                       (let red = red_zone m;
                            wks = sort (map fst wk)
                        in case delta_wk wk of
                             Inl e \<Rightarrow> Inl e
                           | Inr dl \<Rightarrow>
                               Inr \<lparr>by_week = wk, ae_trend = tr, ae_trend_pct = pct,
                                    ae_delta_wk = dl, hr_at_mp = hr_mp, red_zone_hr = red,
                                    hr_buffer = buffer red hr_mp,
                                    current_week =
                                      (if wks = [] then None else Some (last wks))\<rparr>))))"

section \<open>Predictor\<close>

definition riegel :: "real \<Rightarrow> real \<Rightarrow> real \<Rightarrow> real" where
  \<comment> \<open>\<^verbatim>\<open>t1_secs * (d2_m / d1_m) ** 1.06\<close>, for a positive ratio.\<close>
  "riegel t1_secs d1_m d2_m = t1_secs * (d2_m / d1_m) powr (106 / 100)"

definition predict :: "row list \<Rightarrow> analysis \<Rightarrow> int \<times> string option" where
  "predict rows an =
     (let base_secs = riegel (of_int HM_PB_SECS) (of_rat HM_DIST_M) (of_int TARGET_DIST_M);
          ae_pct = (case ae_trend_pct an of None \<Rightarrow> 0 | Some p \<Rightarrow> if p \<noteq> 0 then p else 0);
          modifier = max (- 90) (min 90 (- ae_pct * 15));
          pred_secs = base_secs + of_rat modifier
      in (round_half_even pred_secs, None))"

definition export_a :: "string \<Rightarrow> row" where
  \<comment> \<open>An export row of the end-to-end example, with any name.\<close>
  "export_a nm = \<lparr>activity_id = ''A'', date = ''2025-12-22'', name = nm,
                  distance_km = 10, moving_secs = 2400, avg_hr = None\<rparr>"

definition activity_b :: "string \<Rightarrow> string option \<Rightarrow> api_activity" where
  \<comment> \<open>The API activity of the end-to-end example, with any time of day and name.\<close>
  "activity_b time nm = \<lparr>api_id = IdStr ''B'', start_date_local = ''2025-12-22'' @ time,
                          api_name = nm, distance = Some 10005, moving_time = Some 2401,
                          average_heartrate = Num 150\<rparr>"

section \<open>The specification's wording of the analysis\<close>

definition week_aes :: "(int \<times> week_stats) list \<Rightarrow> rat list" where
  \<comment> \<open>The efficiencies of the populated weeks, in week order.\<close>
  "week_aes wk = map (\<lambda>p. wk_ae (snd p)) (sort_key fst wk)"

definition mean :: "rat list \<Rightarrow> rat" where
  "mean xs = sum_list xs / of_nat (length xs)"

definition percent_change :: "rat list \<Rightarrow> rat" where
  \<comment> \<open>First half against second half, split at \<open>count div 2\<close>, in percent.\<close>
  "percent_change aes =
     (mean (drop (length aes div 2) aes) - mean (take (length aes div 2) aes))
        / mean (take (length aes div 2) aes) * 100"

definition trend_label :: "rat \<Rightarrow> string" where
  "trend_label change =
     (if 1 < change then ''improving'' else if change < - 1 then ''declining'' else ''stable'')"

definition in_plan :: "row \<Rightarrow> bool" where
  \<comment> \<open>The date of the row lies in one of the plan weeks 1..18.\<close>
  "in_plan r = (case plan_week (date r) of Inr (Some w) \<Rightarrow> w \<noteq> 0 | _ \<Rightarrow> False)"

definition run_points :: "row list \<Rightarrow> point list" where
  \<comment> \<open>The points (speed, heart rate) of the given runs.\<close>
  "run_points rs = List.map_filter (\<lambda>r. map_option (make_point r) (avg_hr r)) rs"

definition plan_points :: "row list \<Rightarrow> point list" where
  \<comment> \<open>The points of the qualifying runs that lie in a plan week.\<close>
  "plan_points rows = run_points (filter in_plan (hr_runs rows))"

definition week_run :: "string \<Rightarrow> rat \<Rightarrow> int \<Rightarrow> rat \<Rightarrow> row" where
  "week_run d km secs h = \<lparr>activity_id = d, date = d, name = ''Run'', distance_km = km,
                           moving_secs = secs, avg_hr = Some h\<rparr>"

definition two_week_rows :: "row list" where
  \<comment> \<open>One run in week 1 and one in week 2, both 10 km in 2500 s, at 200 and 197.94 bpm.\<close>
  "two_week_rows = [week_run ''2025-12-23'' 10 2500 200,
                    week_run ''2025-12-30'' 10 2500 (19794 / 100)]"



definition week_entry :: "int \<Rightarrow> rat \<Rightarrow> int \<times> week_stats" where
  \<comment> \<open>A populated week with the given efficiency.\<close>
  "week_entry w e = (w, \<lparr>wk_ae = e, wk_avg_hr = 150, wk_avg_pace_minkm = 5, wk_n = 1\<rparr>)"

section \<open>The specification's wording of the prediction\<close>

definition trend_modifier :: "rat option \<Rightarrow> rat" where
  \<comment> \<open>Minus 15 seconds for each percent of trend, kept within -90..90; nothing for a
      missing trend.\<close>
  "trend_modifier pct = (case pct of None \<Rightarrow> 0 | Some p \<Rightarrow> max (- 90) (min 90 (- 15 * p)))"

definition predicted_time :: "rat option \<Rightarrow> int" where
  \<comment> \<open>The Riegel baseline from the half-marathon reference plus the modifier, rounded.\<close>
  "predicted_time pct =
     round_half_even (4380 * (42195 / (42195 / 2)) powr (106 / 100) + real_of_rat (trend_modifier pct))"

definition analysis_with :: "rat option \<Rightarrow> analysis" where
  \<comment> \<open>An analysis with the given trend percentage and nothing else.\<close>
  "analysis_with pct = \<lparr>by_week = [], ae_trend = ''stable'', ae_trend_pct = pct,
                        ae_delta_wk = None, hr_at_mp = None, red_zone_hr = 882 / 5,
                        hr_buffer = None, current_week = None\<rparr>"

section \<open>The merger and the analyser with the float operations as parameters\<close>

text \<open>
  The definitions above compute with exact rationals. The program computes with binary
  floats, and the two differ where a value falls on or near a decimal tie. The definitions
  of this section are the same code once more with every float operation left open: a row
  still holds the exact value of its float, and the operations on floats (the arithmetic,
  \<^verbatim>\<open>sum\<close>, \<^verbatim>\<open>round\<close>, the float of a decimal literal) are the fields of a record that is
  passed in. Comparisons of floats, and conversions of the integers that occur, are exact.
  What is proved for every such record holds for the program's own arithmetic; \<open>exact\<close> is
  the record of the exact operations, at which the definitions above are recovered.
\<close>

record arith =
  f_add :: "rat \<Rightarrow> rat \<Rightarrow> rat"
  f_sub :: "rat \<Rightarrow> rat \<Rightarrow> rat"
  f_mul :: "rat \<Rightarrow> rat \<Rightarrow> rat"
  f_div :: "rat \<Rightarrow> rat \<Rightarrow> rat"
  f_sq :: "rat \<Rightarrow> rat"
  f_sum :: "rat list \<Rightarrow> rat"
  f_round :: "nat \<Rightarrow> rat \<Rightarrow> rat"
  f_lit :: "rat \<Rightarrow> rat"

definition exact :: arith where
  "exact = \<lparr>f_add = (+), f_sub = (-), f_mul = (*), f_div = (/), f_sq = (\<lambda>x. x ^ 2),
            f_sum = sum_list, f_round = py_round, f_lit = (\<lambda>x. x)\<rparr>"

subsection \<open>Merger\<close>

definition dup_key_by :: "(rat \<Rightarrow> rat) \<Rightarrow> row \<Rightarrow> string \<times> rat" where
  \<comment> \<open>\<^verbatim>\<open>(r["date"], round(r["distance_km"], 1))\<close>, where \<open>rnd\<close> stands for \<^verbatim>\<open>round(_, 1)\<close>.\<close>
  "dup_key_by rnd r = (date r, rnd (distance_km r))"

definition api_step_by :: "(rat \<Rightarrow> rat) \<Rightarrow> row \<Rightarrow> master \<Rightarrow> master" where
  "api_step_by rnd r m =
     (if activity_id r \<in> fst ` set m then
        (if truthy (avg_hr r)
         then AList.map_entry (activity_id r) (\<lambda>v. v\<lparr>avg_hr := avg_hr r\<rparr>) m
         else m)
      else
        (case find (\<lambda>v. dup_key_by rnd v = dup_key_by rnd r) (map snd m) of
           Some existing \<Rightarrow>
             (if truthy (avg_hr r)
              then set_hr_first (\<lambda>v. dup_key_by rnd v = dup_key_by rnd r) (avg_hr r) m
              else m)
         | None \<Rightarrow> AList.update (activity_id r) r m))"

definition merge_master_by :: "(rat \<Rightarrow> rat) \<Rightarrow> row list \<Rightarrow> row list \<Rightarrow> master" where
  "merge_master_by rnd export_rows api_rows =
     fold (api_step_by rnd) api_rows (fold export_step export_rows [])"

definition merge_by :: "(rat \<Rightarrow> rat) \<Rightarrow> row list \<Rightarrow> row list \<Rightarrow> row list" where
  "merge_by rnd export_rows api_rows =
     sort_key date (map snd (merge_master_by rnd export_rows api_rows))"

definition merged_hr :: "row \<Rightarrow> row \<Rightarrow> row" where
  \<comment> \<open>The export row with the heart rate decided: the API's when that is non-empty.\<close>
  "merged_hr e a = e\<lparr>avg_hr := (if truthy (avg_hr a) then avg_hr a else avg_hr e)\<rparr>"

definition apart :: "(rat \<Rightarrow> rat) \<Rightarrow> row \<Rightarrow> row \<Rightarrow> row \<Rightarrow> bool" where
  \<comment> \<open>Row \<open>x\<close> shares no id with \<open>e\<close> or \<open>a\<close> and not the key of \<open>e\<close>.\<close>
  "apart rnd e a x = (activity_id x \<noteq> activity_id e \<and> activity_id x \<noteq> activity_id a
                      \<and> dup_key_by rnd x \<noteq> dup_key_by rnd e)"

definition stored :: "(rat \<Rightarrow> rat) \<Rightarrow> row \<Rightarrow> row \<Rightarrow> row \<Rightarrow> master \<Rightarrow> bool" where
  \<comment> \<open>The dictionary holds \<open>c\<close> under the id of \<open>e\<close>, and every other entry is apart.\<close>
  "stored rnd e a c m =
     (keyed m \<and> map_of m (activity_id e) = Some c
      \<and> list_all (\<lambda>p. fst p = activity_id e \<or> apart rnd e a (snd p)) m)"

definition export_131 :: "string \<Rightarrow> row" where
  \<comment> \<open>An export row of 2025-12-22, 10.0 km in 2400 s at 131 bpm, with the given id.\<close>
  "export_131 i = \<lparr>activity_id = i, date = ''2025-12-22'', name = ''Run'', distance_km = 10,
                   moving_secs = 2400, avg_hr = Some 131\<rparr>"

subsection \<open>Analyser\<close>

definition make_point_fp :: "arith \<Rightarrow> row \<Rightarrow> rat \<Rightarrow> point" where
  "make_point_fp ar r h =
     (let speed = f_div ar (f_mul ar (distance_km r) 1000) (of_int (moving_secs r));
          ae = f_mul ar (f_div ar speed h) 1000
      in \<lparr>pt_date = date r, pt_speed = speed, pt_hr = h, pt_ae = ae,
          pt_dist_km = distance_km r\<rparr>)"

fun group_runs_fp ::
  "arith \<Rightarrow> row list \<Rightarrow> (int \<times> point list) list \<Rightarrow> error + (int \<times> point list) list" where
  "group_runs_fp ar [] bw = Inr bw"
| "group_runs_fp ar (r # rs) bw =
     (case plan_week (date r) of
        Inl e \<Rightarrow> Inl e
      | Inr None \<Rightarrow> group_runs_fp ar rs bw
      | Inr (Some w) \<Rightarrow>
          if w = 0 then group_runs_fp ar rs bw
          else (case avg_hr r of
                  None \<Rightarrow> Inl ValueError
                | Some h \<Rightarrow> group_runs_fp ar rs (dd_append w (make_point_fp ar r h) bw)))"

definition week_stats_of_fp :: "arith \<Rightarrow> point list \<Rightarrow> week_stats" where
  "week_stats_of_fp ar runs =
     \<lparr>wk_ae = f_round ar 4 (f_div ar (f_sum ar (map pt_ae runs)) (of_nat (length runs))),
      wk_avg_hr = f_round ar 1 (f_div ar (f_sum ar (map pt_hr runs)) (of_nat (length runs))),
      wk_avg_pace_minkm =
        f_round ar 2
          (f_div ar (f_sum ar (map (\<lambda>r. f_div ar (f_div ar 1000 (pt_speed r)) 60) runs))
             (of_nat (length runs))),
      wk_n = length runs\<rparr>"

definition make_wk_ae_fp :: "arith \<Rightarrow> (int \<times> point list) list \<Rightarrow> (int \<times> week_stats) list" where
  "make_wk_ae_fp ar bw = map (\<lambda>(w, runs). (w, week_stats_of_fp ar runs)) (sort_key fst bw)"

definition trend_fp :: "arith \<Rightarrow> (int \<times> week_stats) list \<Rightarrow> error + string \<times> rat option" where
  "trend_fp ar wk =
     (let wks = sort (map fst wk) in
      if 2 \<le> length wks then
        (let mid = length wks div 2 in
         case lookup_ae wk (take mid wks) of
           Inl e \<Rightarrow> Inl e
         | Inr firsts \<Rightarrow>
             (let first_ae = f_div ar (f_sum ar firsts) (of_nat mid) in
              case lookup_ae wk (drop mid wks) of
                Inl e \<Rightarrow> Inl e
              | Inr seconds \<Rightarrow>
                  (let second_ae = f_div ar (f_sum ar seconds) (of_nat (length wks - mid)) in
                   if first_ae = 0 then Inl ZeroDivisionError
                   else (let ae_pct =
                               f_round ar 1
                                 (f_mul ar (f_div ar (f_sub ar second_ae first_ae) first_ae) 100)
                         in Inr (if 1 < ae_pct then ''improving''
                                 else if ae_pct < - 1 then ''declining''
                                 else ''stable'', Some ae_pct)))))
      else Inr (''insufficient data'', None))"

definition mp_speed_fp :: "arith \<Rightarrow> rat" where
  "mp_speed_fp ar = f_div ar (of_int TARGET_DIST_M) (of_int TARGET_SECS)"


definition regression_fp :: "arith \<Rightarrow> point list \<Rightarrow> rat option" where
  "regression_fp ar all_pts =
     (if 3 \<le> length all_pts then
        (let n = of_nat (length all_pts);
             sx = f_sum ar (map pt_speed all_pts);
             sy = f_sum ar (map pt_hr all_pts);
             sxy = f_sum ar (map (\<lambda>r. f_mul ar (pt_speed r) (pt_hr r)) all_pts);
             sx2 = f_sum ar (map (\<lambda>r. f_sq ar (pt_speed r)) all_pts);
             denom = f_sub ar (f_mul ar n sx2) (f_mul ar sx sx)
         in if denom \<noteq> 0 then
              (let a = f_div ar (f_sub ar (f_mul ar n sxy) (f_mul ar sx sy)) denom;
                   b = f_div ar (f_sub ar sy (f_mul ar a sx)) n
               in Some (f_round ar 1 (f_add ar (f_mul ar a (mp_speed_fp ar)) b)))
            else None)
      else None)"

definition est_max_hr_fp :: "arith \<Rightarrow> rat \<Rightarrow> rat" where
  "est_max_hr_fp ar m = f_mul ar m (f_lit ar (112 / 100))"

definition red_zone_fp :: "arith \<Rightarrow> rat \<Rightarrow> rat" where
  "red_zone_fp ar m = f_round ar 1 (f_mul ar (est_max_hr_fp ar m) (f_lit ar (90 / 100)))"

definition buffer_fp :: "arith \<Rightarrow> rat \<Rightarrow> rat option \<Rightarrow> rat option" where
  "buffer_fp ar red hr_mp =
     (case hr_mp of
        None \<Rightarrow> None
      | Some h \<Rightarrow> if h \<noteq> 0 then Some (f_round ar 1 (f_sub ar red h)) else None)"

definition delta_wk_fp :: "arith \<Rightarrow> (int \<times> week_stats) list \<Rightarrow> error + rat option" where
  "delta_wk_fp ar wk =
     (let wks = sort (map fst wk) in
      if 2 \<le> length wks then
        (let current_wk = last wks; prev_wk = wks ! (length wks - 2) in
         if current_wk \<noteq> 0 \<and> prev_wk \<noteq> 0 then
           (case lookup_ae wk [current_wk, prev_wk] of
              Inr [c, p] \<Rightarrow>
                if p = 0 then Inl ZeroDivisionError
                else Inr (Some (f_round ar 1 (f_mul ar (f_div ar (f_sub ar c p) p) 100)))
            | Inr _ \<Rightarrow> Inl KeyError
            | Inl e \<Rightarrow> Inl e)
         else Inr None)
      else Inr None)"

definition analyse_fp :: "arith \<Rightarrow> row list \<Rightarrow> error + analysis" where
  "analyse_fp ar rows =
     (let runs = hr_runs rows in
      case group_runs_fp ar runs [] of
        Inl e \<Rightarrow> Inl e
      | Inr bw \<Rightarrow>
          (let wk = make_wk_ae_fp ar bw in
           case trend_fp ar wk of
             Inl e \<Rightarrow> Inl e
           | Inr (tr, pct) \<Rightarrow>
               (let all_pts = concat (map snd bw);
                    hr_mp = regression_fp ar all_pts
                in case max_avg_hr runs of
                     Inl e \<Rightarrow> Inl e
                   | Inr m \<Rightarrow>
                       (let red = red_zone_fp ar m;
                            wks = sort (map fst wk)
                        in case delta_wk_fp ar wk of
                             Inl e \<Rightarrow> Inl e
                           | Inr dl \<Rightarrow>
                               Inr \<lparr>by_week = wk, ae_trend = tr, ae_trend_pct = pct,
                                    ae_delta_wk = dl, hr_at_mp = hr_mp, red_zone_hr = red,
                                    hr_buffer = buffer_fp ar red hr_mp,
                                    current_week =
                                      (if wks = [] then None else Some (last wks))\<rparr>))))"

subsection \<open>The specification's wording, with the operations as parameters\<close>



definition half_mean :: "arith \<Rightarrow> rat list \<Rightarrow> rat" where
  \<comment> \<open>The average of a list of efficiencies as the code computes it.\<close>
  "half_mean ar xs = f_div ar (f_sum ar xs) (of_nat (length xs))"

definition rounded_change :: "arith \<Rightarrow> rat list \<Rightarrow> rat" where
  \<comment> \<open>\<open>(second - first) / first * 100\<close> of the two half averages, rounded to one decimal
      place.\<close>
  "rounded_change ar aes =
     f_round ar 1
       (f_mul ar
          (f_div ar
             (f_sub ar (half_mean ar (drop (length aes div 2) aes))
                (half_mean ar (take (length aes div 2) aes)))
             (half_mean ar (take (length aes div 2) aes)))
          100)"

section \<open>Properties\<close>

subsection \<open>Evaluating rounding\<close>

lemma floor_rat_numeral [simp]: "\<lfloor>numeral a / numeral b :: rat\<rfloor> = numeral a div numeral b"
  by (metis floor_divide_of_int_eq of_int_numeral)

lemma floor_rat_neg_numeral [simp]:
  "\<lfloor>- (numeral a / numeral b) :: rat\<rfloor> = - numeral a div numeral b"
  by (metis divide_minus_left floor_divide_of_int_eq of_int_neg_numeral of_int_numeral)

lemmas round_defs = py_round_def round_half_even_def Let_def

subsection \<open>Status builder\<close>

lemma status_cases:
  "status (build_status p) =
     (if 180 < TARGET_SECS - p then ''AHEAD''
      else if - 60 \<le> TARGET_SECS - p then ''ON TRACK''
      else if - 300 \<le> TARGET_SECS - p then ''CLOSE'' else ''OFF PACE'')"
  by (simp add: build_status_def Let_def)

text \<open>
  C1 (as amended). The status depends on \<open>delta = target - predicted\<close> alone and is exactly
  one of four values: AHEAD iff \<open>delta > 180\<close>; ON TRACK iff \<open>-60 \<le> delta \<le> 180\<close>; CLOSE iff
  \<open>-300 \<le> delta < -60\<close>; OFF PACE iff \<open>delta < -300\<close>. At the boundaries, 180 and -60 are
  ON TRACK and -300 is CLOSE (CLOSE includes its lower bound).
\<close>

theorem build_status_buckets:
  "(status (build_status p) = ''AHEAD'' \<longleftrightarrow> 180 < delta_seconds (build_status p))
   \<and> (status (build_status p) = ''ON TRACK'' \<longleftrightarrow>
        - 60 \<le> delta_seconds (build_status p) \<and> delta_seconds (build_status p) \<le> 180)
   \<and> (status (build_status p) = ''CLOSE'' \<longleftrightarrow>
        - 300 \<le> delta_seconds (build_status p) \<and> delta_seconds (build_status p) < - 60)
   \<and> (status (build_status p) = ''OFF PACE'' \<longleftrightarrow> delta_seconds (build_status p) < - 300)
   \<and> delta_seconds (build_status p) = TARGET_SECS - p
   \<and> status (build_status (TARGET_SECS - 180)) = ''ON TRACK''
   \<and> status (build_status (TARGET_SECS - (- 60))) = ''ON TRACK''
   \<and> status (build_status (TARGET_SECS - (- 300))) = ''CLOSE''"
proof -
  have d: "delta_seconds (build_status p) = TARGET_SECS - p"
    by (simp add: build_status_def Let_def split: prod.splits)
  show ?thesis
    unfolding d status_cases by (simp add: TARGET_SECS_def)
qed

text \<open>
  C1 as stated fails: a predicted time of 9600 s gives \<open>delta = -300\<close>, which the code
  classifies as CLOSE, not OFF PACE.
\<close>

theorem build_status_minus_300_counterexample:
  "delta_seconds (build_status 9600) = - 300 \<and> status (build_status 9600) \<noteq> ''OFF PACE''"
  by (simp add: build_status_def TARGET_SECS_def Let_def)

subsection \<open>Week indexer\<close>

lemmas date_defs = plan_week_def strptime_ymd_def is_digit_def digit_val_def toordinal_def
  days_before_year_def days_before_month_def days_in_month_def is_leap_def PLAN_START_def

text \<open>
  C5. For every date string that parses, the week is \<open>floor(days / 7) + 1\<close> when that lies in
  1..18 and no week otherwise, where \<open>days\<close> is the date minus the plan start. The plan start
  itself is week 1, seven days later is week 2, every earlier date and every date of
  week 19 or later has no week.
\<close>

theorem plan_week_formula:
  assumes "strptime_ymd s = Inr d"
  shows "plan_week s = Inr (week_formula (toordinal d - toordinal PLAN_START))
    \<and> (toordinal d = toordinal PLAN_START \<longrightarrow> plan_week s = Inr (Some 1))
    \<and> (toordinal d = toordinal PLAN_START + 7 \<longrightarrow> plan_week s = Inr (Some 2))
    \<and> (toordinal d < toordinal PLAN_START \<longrightarrow> plan_week s = Inr None)
    \<and> (19 \<le> (toordinal d - toordinal PLAN_START) div 7 + 1 \<longrightarrow> plan_week s = Inr None)"
proof -
  have eq: "plan_week s = Inr (week_formula (toordinal d - toordinal PLAN_START))"
    using assms by (auto simp: plan_week_def week_formula_def Let_def)
  show ?thesis unfolding eq by (auto simp: week_formula_def)
qed

theorem plan_week_formula_witness:
  "plan_week ''2025-12-22'' = Inr (Some 1) \<and> plan_week ''2025-12-29'' = Inr (Some 2)
   \<and> plan_week ''2025-12-21'' = Inr None \<and> plan_week ''2026-04-27'' = Inr None
   \<and> plan_week ''2026-04-26'' = Inr (Some 18)"
proof -
  have p1: "strptime_ymd ''2025-12-22'' = Inr \<lparr>year = 2025, month = 12, day = 22\<rparr>"
    by (simp add: date_defs)
  have p2: "strptime_ymd ''2025-12-29'' = Inr \<lparr>year = 2025, month = 12, day = 29\<rparr>"
    by (simp add: date_defs)
  have p3: "strptime_ymd ''2025-12-21'' = Inr \<lparr>year = 2025, month = 12, day = 21\<rparr>"
    by (simp add: date_defs)
  have p4: "strptime_ymd ''2026-04-27'' = Inr \<lparr>year = 2026, month = 4, day = 27\<rparr>"
    by (simp add: date_defs)
  have p5: "strptime_ymd ''2026-04-26'' = Inr \<lparr>year = 2026, month = 4, day = 26\<rparr>"
    by (simp add: date_defs)
  show ?thesis
    using plan_week_formula [OF p1] plan_week_formula [OF p2] plan_week_formula [OF p3]
      plan_week_formula [OF p4] plan_week_formula [OF p5]
    by (simp add: toordinal_def days_before_year_def days_before_month_def is_leap_def
        PLAN_START_def week_formula_def)
qed

subsection \<open>Merger: the dictionary invariant, sizes\<close>

lemma update_ids:
  "map (\<lambda>p. activity_id (snd p)) m = map fst m \<Longrightarrow> activity_id v = k \<Longrightarrow>
   map (\<lambda>p. activity_id (snd p)) (AList.update k v m) = map fst (AList.update k v m)"
  by (induction m) auto

lemma keyed_update: "keyed m \<Longrightarrow> activity_id v = k \<Longrightarrow> keyed (AList.update k v m)"
  unfolding keyed_def by (simp add: distinct_update update_ids)

lemma map_entry_keys: "map fst (AList.map_entry k f m) = map fst m"
  by (induction m) auto

lemma map_entry_ids:
  "(\<And>v. activity_id (f v) = activity_id v) \<Longrightarrow>
   map (\<lambda>p. activity_id (snd p)) (AList.map_entry k f m) = map (\<lambda>p. activity_id (snd p)) m"
  by (induction m) auto

lemma set_hr_first_keys: "map fst (set_hr_first P h m) = map fst m"
  by (induction m) auto

lemma set_hr_first_ids:
  "map (\<lambda>p. activity_id (snd p)) (set_hr_first P h m) = map (\<lambda>p. activity_id (snd p)) m"
  by (induction m) auto

lemma keyed_export_step: "keyed m \<Longrightarrow> keyed (export_step r m)"
  by (simp add: export_step_def keyed_update)














lemma keys_fold_export:
  "fst ` set (fold export_step rs m) = fst ` set m \<union> activity_id ` set rs"
  by (induction rs arbitrary: m) (auto simp: export_step_def dom_update)


lemma merge_ids: "map activity_id (map snd m) = map (\<lambda>p. activity_id (snd p)) m"
  by simp



subsection \<open>End-to-end example\<close>

text \<open>
  C9. Two export rows with id A (2025-12-22, 10.0 km, 2400 s, no heart rate) and one API
  activity with id B (same date, 10005 m, 2401 s, heart rate 150) merge into one row: the
  export row, matched by (date, 10.0 km), with heart rate 150; its date is in week 1.
  The binary float nearest to 10.005 rounds to 10.01 where the exact value rounds to 10.0;
  the result is the same for both distances of the API row.
\<close>

theorem end_to_end_example:
  "merge [export_a n1, export_a n2] [norm_api (activity_b t nm)]
     = [(export_a n2)\<lparr>avg_hr := Some 150\<rparr>]
   \<and> merge [export_a n1, export_a n2] [(norm_api (activity_b t nm))\<lparr>distance_km := 1001 / 100\<rparr>]
     = [(export_a n2)\<lparr>avg_hr := Some 150\<rparr>]
   \<and> activity_id (norm_api (activity_b t nm)) \<noteq> activity_id (export_a n2)
   \<and> dup_key (norm_api (activity_b t nm)) = (''2025-12-22'', 10)
   \<and> dup_key (export_a n2) = (''2025-12-22'', 10)
   \<and> plan_week (date ((export_a n2)\<lparr>avg_hr := Some 150\<rparr>)) = Inr (Some 1)"
proof -
  have r: "py_round 2 (2001 / 200) = 10" "py_round (Suc 0) 10 = 10"
    "py_round (Suc 0) (1001 / 100) = 10"
    by (simp_all add: round_defs)
  have n: "norm_api (activity_b t nm)
     = \<lparr>activity_id = ''B'', date = ''2025-12-22'',
        name = (case nm of None \<Rightarrow> [] | Some s \<Rightarrow> s),
        distance_km = 10, moving_secs = 2401, avg_hr = Some 150\<rparr>"
    by (simp add: norm_api_def activity_b_def r py_int_def)
  have w: "plan_week ''2025-12-22'' = Inr (Some 1)"
    by (simp add: date_defs)
  show ?thesis
    unfolding n
    by (simp add: merge_def merge_master_def export_step_def api_step_def export_a_def
        dup_key_def r truthy_def w)
qed

subsection \<open>Normaliser: empty heart rate\<close>

lemma update_new_key: "k \<notin> fst ` set m \<Longrightarrow> AList.update k v m = m @ [(k, v)]"
  by (induction m) auto

lemma api_step_no_hr:
  assumes "\<not> truthy (avg_hr r)"
  shows "api_step r m = m \<or> api_step r m = m @ [(activity_id r, r)]"
  using assms by (simp add: api_step_def update_new_key split: option.splits)

lemma hr_runs_skip: "\<not> truthy (avg_hr r) \<Longrightarrow> hr_runs (xs @ r # ys) = hr_runs (xs @ ys)"
  by (simp add: hr_runs_def)

lemma analyse_hr_runs: "hr_runs xs = hr_runs ys \<Longrightarrow> analyse xs = analyse ys"
  by (simp add: analyse_def)

text \<open>
  C10. When the average heart rate of an API activity is missing, null or zero, the
  normalised row has the empty heart rate. Such a row is not among the runs that the analysis
  uses, so the analysis is the same with and without it; and merging it changes no stored
  row: the dictionary stays as it was, or the row is added at its end.
\<close>

theorem norm_api_empty_hr:
  assumes "average_heartrate a = Absent \<or> average_heartrate a = Null
    \<or> average_heartrate a = Num 0"
  shows "avg_hr (norm_api a) = None
    \<and> hr_runs (xs @ norm_api a # ys) = hr_runs (xs @ ys)
    \<and> analyse (xs @ norm_api a # ys) = analyse (xs @ ys)
    \<and> (api_step (norm_api a) m = m
        \<or> api_step (norm_api a) m = m @ [(activity_id (norm_api a), norm_api a)])"
proof -
  have e: "avg_hr (norm_api a) = None"
    using assms by (auto simp: norm_api_def)
  then have t: "\<not> truthy (avg_hr (norm_api a))"
    by (simp add: truthy_def)
  show ?thesis
    using e hr_runs_skip [OF t, of xs ys] analyse_hr_runs [OF hr_runs_skip [OF t, of xs ys]]
      api_step_no_hr [OF t, of m]
    by blast
qed

theorem norm_api_empty_hr_witness:
  "avg_hr (norm_api ((activity_b [] None)\<lparr>average_heartrate := Num 0\<rparr>)) = None
   \<and> avg_hr (norm_api ((activity_b [] None)\<lparr>average_heartrate := Null\<rparr>)) = None
   \<and> avg_hr (norm_api ((activity_b [] None)\<lparr>average_heartrate := Absent\<rparr>)) = None
   \<and> hr_runs ([run_b] @ norm_api ((activity_b [] None)\<lparr>average_heartrate := Num 0\<rparr>) # [])
       = [run_b]
   \<and> analyse ([run_b] @ norm_api ((activity_b [] None)\<lparr>average_heartrate := Num 0\<rparr>) # [])
       = analyse [run_b]"
proof -
  have h: "hr_runs ([run_b] @ []) = [run_b]"
    by (simp add: hr_runs_def run_b_def truthy_def)
  show ?thesis
    using norm_api_empty_hr [of "(activity_b [] None)\<lparr>average_heartrate := Num 0\<rparr>" "[run_b]" "[]"]
      norm_api_empty_hr [of "(activity_b [] None)\<lparr>average_heartrate := Null\<rparr>"]
      norm_api_empty_hr [of "(activity_b [] None)\<lparr>average_heartrate := Absent\<rparr>"]
      h
    by simp
qed

subsection \<open>Analyser: grouping by week\<close>

lemma dd_append_keys:
  "map fst (dd_append w p bw) = (if w \<in> fst ` set bw then map fst bw else map fst bw @ [w])"
  by (induction bw) (auto simp: rev_image_eqI)

lemma dd_append_distinct: "distinct (map fst bw) \<Longrightarrow> distinct (map fst (dd_append w p bw))"
  by (simp add: dd_append_keys)

lemma dd_append_sum:
  fixes f :: "point \<Rightarrow> rat"
  shows "sum_list (map f (concat (map snd (dd_append w p bw))))
           = sum_list (map f (concat (map snd bw))) + f p"
  by (induction bw) auto

lemma dd_append_length:
  "length (concat (map snd (dd_append w p bw))) = Suc (length (concat (map snd bw)))"
  by (induction bw) auto

lemma group_runs_distinct:
  "group_runs rs bw = Inr bw' \<Longrightarrow> distinct (map fst bw) \<Longrightarrow> distinct (map fst bw')"
proof (induction rs arbitrary: bw)
  case Nil
  then show ?case by simp
next
  case (Cons r rs)
  then show ?case
    by (auto split: sum.splits option.splits if_splits intro: dd_append_distinct)
qed

lemma run_points_Cons:
  "run_points (r # rs) = (case avg_hr r of None \<Rightarrow> run_points rs
                          | Some h \<Rightarrow> make_point r h # run_points rs)"
  by (simp add: run_points_def split: option.splits)

lemma run_points_Nil: "run_points [] = []"
  by (simp add: run_points_def)

lemma group_runs_sum:
  fixes f :: "point \<Rightarrow> rat"
  shows "group_runs rs bw = Inr bw' \<Longrightarrow>
    sum_list (map f (concat (map snd bw')))
      = sum_list (map f (concat (map snd bw))) + sum_list (map f (run_points (filter in_plan rs)))"
proof (induction rs arbitrary: bw)
  case Nil
  then show ?case by (simp add: run_points_Nil)
next
  case (Cons r rs)
  show ?case
  proof (cases "plan_week (date r)")
    case (Inl e)
    with Cons.prems show ?thesis by simp
  next
    case (Inr wo)
    show ?thesis
    proof (cases wo)
      case None
      with Inr Cons show ?thesis by (simp add: in_plan_def)
    next
      case (Some w)
      show ?thesis
      proof (cases "w = 0")
        case True
        with Inr Some Cons show ?thesis by (simp add: in_plan_def)
      next
        case False
        with Inr Some Cons.prems obtain h where h: "avg_hr r = Some h"
          and g: "group_runs rs (dd_append w (make_point r h) bw) = Inr bw'"
          by (auto split: option.splits)
        have ip: "in_plan r" using Inr Some False by (simp add: in_plan_def)
        from Cons.IH [OF g] show ?thesis
          using ip h by (simp add: dd_append_sum run_points_Cons)
      qed
    qed
  qed
qed

lemma group_runs_length:
  "group_runs rs bw = Inr bw' \<Longrightarrow>
    length (concat (map snd bw'))
      = length (concat (map snd bw)) + length (run_points (filter in_plan rs))"
proof (induction rs arbitrary: bw)
  case Nil
  then show ?case by (simp add: run_points_Nil)
next
  case (Cons r rs)
  show ?case
  proof (cases "plan_week (date r)")
    case (Inl e)
    with Cons.prems show ?thesis by simp
  next
    case (Inr wo)
    show ?thesis
    proof (cases wo)
      case None
      with Inr Cons show ?thesis by (simp add: in_plan_def)
    next
      case (Some w)
      show ?thesis
      proof (cases "w = 0")
        case True
        with Inr Some Cons show ?thesis by (simp add: in_plan_def)
      next
        case False
        with Inr Some Cons.prems obtain h where h: "avg_hr r = Some h"
          and g: "group_runs rs (dd_append w (make_point r h) bw) = Inr bw'"
          by (auto split: option.splits)
        have ip: "in_plan r" using Inr Some False by (simp add: in_plan_def)
        from Cons.IH [OF g] show ?thesis
          using ip h by (simp add: dd_append_length run_points_Cons)
      qed
    qed
  qed
qed

lemma regression_cong:
  assumes "length xs = length ys"
    and "\<And>f :: point \<Rightarrow> rat. sum_list (map f xs) = sum_list (map f ys)"
  shows "regression xs = regression ys" and "regression_denom xs = regression_denom ys"
  unfolding regression_def regression_denom_def using assms by simp_all

lemma group_runs_regression:
  assumes "group_runs (hr_runs rows) [] = Inr bw"
  shows "regression (concat (map snd bw)) = regression (plan_points rows)"
    and "regression_denom (concat (map snd bw)) = regression_denom (plan_points rows)"
    and "length (concat (map snd bw)) = length (plan_points rows)"
proof -
  have l: "length (concat (map snd bw)) = length (plan_points rows)"
    using group_runs_length [OF assms] by (simp add: plan_points_def)
  have s: "sum_list (map f (concat (map snd bw))) = sum_list (map f (plan_points rows))"
    for f :: "point \<Rightarrow> rat"
    using group_runs_sum [OF assms, of f] by (simp add: plan_points_def)
  show "regression (concat (map snd bw)) = regression (plan_points rows)"
    using l s by (rule regression_cong)
  show "regression_denom (concat (map snd bw)) = regression_denom (plan_points rows)"
    using l s by (rule regression_cong)
  show "length (concat (map snd bw)) = length (plan_points rows)" by (rule l)
qed

lemma regression_defined:
  "regression pts \<noteq> None \<longleftrightarrow> 3 \<le> length pts \<and> regression_denom pts \<noteq> 0"
  by (simp add: regression_def regression_denom_def Let_def)

lemma analyse_fields:
  assumes "analyse rows = Inr A"
  obtains bw m where "group_runs (hr_runs rows) [] = Inr bw"
    and "by_week A = make_wk_ae bw"
    and "trend (make_wk_ae bw) = Inr (ae_trend A, ae_trend_pct A)"
    and "hr_at_mp A = regression (concat (map snd bw))"
    and "max_avg_hr (hr_runs rows) = Inr m"
    and "red_zone_hr A = red_zone m"
    and "hr_buffer A = buffer (red_zone_hr A) (hr_at_mp A)"
    and "delta_wk (make_wk_ae bw) = Inr (ae_delta_wk A)"
  using assms unfolding analyse_def Let_def
  by (auto split: sum.splits prod.splits)

lemmas analyse_defs = analyse_def hr_runs_def truthy_def make_point_def make_wk_ae_def
  week_stats_of_def trend_def regression_def regression_denom_def mp_speed_def max_avg_hr_def
  est_max_hr_def red_zone_def buffer_def delta_wk_def TARGET_DIST_M_def TARGET_SECS_def

subsection \<open>Analyser: regression and heart-rate buffer\<close>

lemma weeks:
  "plan_week ''2025-12-23'' = Inr (Some 1)" "plan_week ''2025-12-30'' = Inr (Some 2)"
  "plan_week ''2026-01-06'' = Inr (Some 3)"
  "plan_week ''2025-12-02'' = Inr None" "plan_week ''2025-12-09'' = Inr None"
  "plan_week ''2025-12-16'' = Inr None"
  by (simp_all add: date_defs)



subsection \<open>Analyser: no qualifying runs\<close>

lemma analyse_no_runs:
  assumes "hr_runs rows = []"
  shows "analyse rows =
     Inr \<lparr>by_week = [], ae_trend = ''insufficient data'', ae_trend_pct = None,
          ae_delta_wk = None, hr_at_mp = None, red_zone_hr = red_zone 175,
          hr_buffer = None, current_week = None\<rparr>"
  using assms
  by (simp add: analyse_def make_wk_ae_def trend_def regression_def max_avg_hr_def
      delta_wk_def buffer_def)

lemma red_zone_175: "est_max_hr 175 = 196" "red_zone 175 = 882 / 5"
  by (simp_all add: est_max_hr_def red_zone_def round_defs)

text \<open>
  C4 (as amended). If no run qualifies, the maximum observed average heart rate takes the
  fallback 175 bpm, the estimated maximum heart rate is 175 * 1.12 = 196 bpm, and the
  red-zone threshold is 90% of that estimate, 176.4 bpm; every other result of the analysis
  is absent.
\<close>

theorem no_qualifying_runs_fallback:
  assumes "hr_runs rows = []"
  shows "max_avg_hr (hr_runs rows) = Inr 175
    \<and> est_max_hr 175 = 196
    \<and> red_zone 175 = 90 / 100 * est_max_hr 175
    \<and> analyse rows =
        Inr \<lparr>by_week = [], ae_trend = ''insufficient data'', ae_trend_pct = None,
             ae_delta_wk = None, hr_at_mp = None, red_zone_hr = 882 / 5,
             hr_buffer = None, current_week = None\<rparr>"
  using assms analyse_no_runs [OF assms]
  by (simp add: max_avg_hr_def red_zone_175)

theorem no_qualifying_runs_fallback_witness:
  "hr_runs [week_run ''2025-12-23'' 3 900 150, run_b\<lparr>avg_hr := None\<rparr>] = []
   \<and> analyse [week_run ''2025-12-23'' 3 900 150, run_b\<lparr>avg_hr := None\<rparr>] =
        Inr \<lparr>by_week = [], ae_trend = ''insufficient data'', ae_trend_pct = None,
             ae_delta_wk = None, hr_at_mp = None, red_zone_hr = 882 / 5,
             hr_buffer = None, current_week = None\<rparr>"
proof -
  have h: "hr_runs [week_run ''2025-12-23'' 3 900 150, run_b\<lparr>avg_hr := None\<rparr>] = []"
    by (simp add: hr_runs_def week_run_def run_b_def truthy_def)
  show ?thesis using no_qualifying_runs_fallback [OF h] h by simp
qed

text \<open>
  C4 as stated fails: with no runs at all the estimated maximum is 196 bpm, not 175 bpm, and
  the threshold is 176.4 bpm, not 90% of 175 bpm.
\<close>

theorem estimated_max_counterexample:
  "hr_runs [] = [] \<and> max_avg_hr (hr_runs []) = Inr 175 \<and> est_max_hr 175 \<noteq> 175
   \<and> analyse [] =
        Inr \<lparr>by_week = [], ae_trend = ''insufficient data'', ae_trend_pct = None,
             ae_delta_wk = None, hr_at_mp = None, red_zone_hr = 882 / 5,
             hr_buffer = None, current_week = None\<rparr>
   \<and> (882 / 5 :: rat) \<noteq> 90 / 100 * 175"
proof -
  have "analyse [] =
        Inr \<lparr>by_week = [], ae_trend = ''insufficient data'', ae_trend_pct = None,
             ae_delta_wk = None, hr_at_mp = None, red_zone_hr = 882 / 5,
             hr_buffer = None, current_week = None\<rparr>"
    using analyse_no_runs [of "[]"] by (simp add: hr_runs_def red_zone_175)
  moreover have "max_avg_hr (hr_runs []) = Inr 175"
    by (simp add: hr_runs_def max_avg_hr_def)
  ultimately show ?thesis by (simp add: hr_runs_def red_zone_175)
qed

subsection \<open>Analyser: trend\<close>

lemma map_insort_key: "map f (insort_key f x ys) = insort (f x) (map f ys)"
  by (induction ys) auto

lemma map_sort_key: "map f (sort_key f xs) = sort (map f xs)"
  by (induction xs) (auto simp: map_insort_key)

lemma lookup_ae_map:
  assumes "distinct (map fst wk)" and "set ys \<subseteq> set wk"
  shows "lookup_ae wk (map fst ys) = Inr (map (\<lambda>p. wk_ae (snd p)) ys)"
  using assms(2)
proof (induction ys)
  case Nil
  show ?case by simp
next
  case (Cons y ys)
  then have "(fst y, snd y) \<in> set wk" by simp
  with assms(1) have "map_of wk (fst y) = Some (snd y)" by (rule map_of_is_SomeI)
  with Cons show ?case by simp
qed

lemma trend_short: "length wk < 2 \<Longrightarrow> trend wk = Inr (''insufficient data'', None)"
  by (simp add: trend_def)

lemma trend_long:
  assumes d: "distinct (map fst wk)" and n: "2 \<le> length wk"
  shows "trend wk =
     (if mean (take (length wk div 2) (week_aes wk)) = 0 then Inl ZeroDivisionError
      else Inr (trend_label (py_round 1 (percent_change (week_aes wk))),
                Some (py_round 1 (percent_change (week_aes wk)))))"
proof -
  let ?S = "sort_key fst wk"
  let ?mid = "length wk div 2"
  have wks: "sort (map fst wk) = map fst ?S" by (simp add: map_sort_key)
  have t: "lookup_ae wk (take ?mid (sort (map fst wk)))
             = Inr (take ?mid (week_aes wk))"
    unfolding wks take_map week_aes_def
    by (rule lookup_ae_map [OF d]) (use set_take_subset [of ?mid ?S] in simp)
  have dr: "lookup_ae wk (drop ?mid (sort (map fst wk)))
             = Inr (drop ?mid (week_aes wk))"
    unfolding wks drop_map week_aes_def
    by (rule lookup_ae_map [OF d]) (use set_drop_subset [of ?mid ?S] in simp)
  have l: "length (week_aes wk) = length wk" by (simp add: week_aes_def)
  have m1: "sum_list (take ?mid (week_aes wk)) / of_nat ?mid = mean (take ?mid (week_aes wk))"
    by (simp add: mean_def l min_def)
  have m2: "sum_list (drop ?mid (week_aes wk)) / of_nat (length wk - ?mid)
              = mean (drop ?mid (week_aes wk))"
    by (simp add: mean_def l)
  show ?thesis
    unfolding trend_def Let_def length_sort length_map t dr sum.case m1 m2
    using n by (simp add: percent_change_def trend_label_def l)
qed

lemma sum_list_const:
  fixes c :: rat
  shows "(\<And>x. x \<in> set xs \<Longrightarrow> x = c) \<Longrightarrow> sum_list xs = of_nat (length xs) * c"
  by (induction xs) (auto simp: algebra_simps)

lemma mean_const:
  fixes c :: rat
  assumes "\<And>x. x \<in> set xs \<Longrightarrow> x = c" and "xs \<noteq> []"
  shows "mean xs = c"
  using sum_list_const [OF assms(1)] assms(2) by (simp add: mean_def)

lemma py_round_0: "py_round n 0 = 0"
  by (simp add: round_defs)

lemma analyse_trend:
  assumes "analyse rows = Inr A"
  shows "distinct (map fst (by_week A))"
    and "trend (by_week A) = Inr (ae_trend A, ae_trend_pct A)"
proof -
  from assms obtain bw where g: "group_runs (hr_runs rows) [] = Inr bw"
    and w: "by_week A = make_wk_ae bw"
    and t: "trend (make_wk_ae bw) = Inr (ae_trend A, ae_trend_pct A)"
    by (rule analyse_fields)
  have "distinct (map fst bw)" using group_runs_distinct [OF g] by simp
  then have "distinct (sort (map fst bw))" by simp
  moreover have "map fst (make_wk_ae bw) = sort (map fst bw)"
    by (simp add: make_wk_ae_def map_sort_key [symmetric] case_prod_unfold comp_def)
  ultimately show "distinct (map fst (by_week A))" by (simp add: w)
  show "trend (by_week A) = Inr (ae_trend A, ae_trend_pct A)" using t w by simp
qed

subsection \<open>Predictor\<close>

lemma two_powr_pow50: "(2 powr (106 / 100 :: real)) ^ 50 = 2 ^ 53"
proof -
  have "(2 powr (106 / 100 :: real)) ^ 50 = (2 powr (106 / 100)) powr (real 50)"
    by (rule powr_realpow [symmetric]) simp
  also have "\<dots> = 2 powr (106 / 100 * real 50)"
    by (rule powr_powr)
  also have "\<dots> = 2 powr (real 53)"
    by simp
  also have "\<dots> = 2 ^ 53"
    by (rule powr_realpow) simp
  finally show ?thesis .
qed

lemma two_powr_lower: "761 / 365 < 2 powr (106 / 100 :: real)"
proof (rule ccontr)
  assume "\<not> 761 / 365 < 2 powr (106 / 100 :: real)"
  then have "2 powr (106 / 100 :: real) \<le> 761 / 365" by simp
  then have "(2 powr (106 / 100 :: real)) ^ 50 \<le> (761 / 365) ^ 50"
    by (rule power_mono) simp
  then have "(2 :: real) ^ 53 \<le> (761 / 365) ^ 50"
    by (simp only: two_powr_pow50)
  moreover have "(761 / 365 :: real) ^ 50 < 2 ^ 53"
    by (simp add: power_divide)
  ultimately show False by simp
qed

lemma two_powr_upper: "2 powr (106 / 100 :: real) < 9132001 / 4380000"
proof (rule ccontr)
  assume "\<not> 2 powr (106 / 100 :: real) < 9132001 / 4380000"
  then have "9132001 / 4380000 \<le> 2 powr (106 / 100 :: real)" by simp
  then have "(9132001 / 4380000) ^ 50 \<le> (2 powr (106 / 100 :: real)) ^ 50"
    by (rule power_mono) simp
  then have "(9132001 / 4380000) ^ 50 \<le> (2 :: real) ^ 53"
    by (simp only: two_powr_pow50)
  moreover have "(2 :: real) ^ 53 < (9132001 / 4380000) ^ 50"
    by (simp add: power_divide)
  ultimately show False by simp
qed

lemma baseline_bounds:
  "9132 < riegel (of_int HM_PB_SECS) (of_rat HM_DIST_M) (of_int TARGET_DIST_M)"
  "riegel (of_int HM_PB_SECS) (of_rat HM_DIST_M) (of_int TARGET_DIST_M) < 9132 + 1 / 1000"
  using two_powr_lower two_powr_upper
  by (simp_all add: riegel_def HM_PB_SECS_def HM_DIST_M_def TARGET_DIST_M_def of_rat_divide)

lemma round_half_even_near:
  fixes x :: real
  assumes "of_int n - 1 / 2 < x" and "x < of_int n + 1 / 2"
  shows "round_half_even x = n"
proof (cases "of_int n \<le> x")
  case True
  then have f: "\<lfloor>x\<rfloor> = n" using assms(2) by (intro floor_unique) simp_all
  show ?thesis using assms(2) by (simp add: round_half_even_def f Let_def)
next
  case False
  then have f: "\<lfloor>x\<rfloor> = n - 1" using assms(1) by (intro floor_unique) simp_all
  show ?thesis using assms(1) by (simp add: round_half_even_def f Let_def)
qed

lemma predict_eq: "predict rows an = (predicted_time (ae_trend_pct an), None)"
  by (simp add: predict_def predicted_time_def trend_modifier_def riegel_def HM_PB_SECS_def
      HM_DIST_M_def TARGET_DIST_M_def of_rat_divide Let_def mult.commute split: option.splits)

lemma predicted_time_value:
  assumes "real_of_rat (trend_modifier pct) = of_int m"
  shows "predicted_time pct = 9132 + m"
proof -
  have b: "9132 < 4380 * (42195 / (42195 / 2)) powr (106 / 100 :: real)"
    "4380 * (42195 / (42195 / 2)) powr (106 / 100 :: real) < 9132 + 1 / 1000"
    using baseline_bounds
    by (simp_all add: riegel_def HM_PB_SECS_def HM_DIST_M_def TARGET_DIST_M_def of_rat_divide)
  show ?thesis
    unfolding predicted_time_def assms
    by (rule round_half_even_near) (use b in simp_all)
qed

text \<open>
  C8. The predicted time is the Riegel baseline \<open>4380 * (42195 / 21097.5) ^ 1.06\<close> plus the
  modifier (minus 15 s for each percent of trend, kept within -90..90 s, zero for a missing
  trend), rounded to an integer. The baseline lies between 9132 s and 9132.001 s, so a
  missing or zero trend gives 9132 s, a trend of 6% or more gives 9042 s, a trend of -6% or
  less gives 9222 s.
\<close>

theorem predict_formula:
  "predict rows an = (predicted_time (ae_trend_pct an), None)
   \<and> 9132 < riegel (of_int HM_PB_SECS) (of_rat HM_DIST_M) (of_int TARGET_DIST_M)
   \<and> riegel (of_int HM_PB_SECS) (of_rat HM_DIST_M) (of_int TARGET_DIST_M) < 9132 + 1 / 1000
   \<and> (ae_trend_pct an = None \<or> ae_trend_pct an = Some 0 \<longrightarrow> fst (predict rows an) = 9132)
   \<and> (\<forall>p. ae_trend_pct an = Some p \<and> 6 \<le> p \<longrightarrow> fst (predict rows an) = 9042)
   \<and> (\<forall>p. ae_trend_pct an = Some p \<and> p \<le> - 6 \<longrightarrow> fst (predict rows an) = 9222)
   \<and> (\<forall>p k. ae_trend_pct an = Some p \<and> - 6 \<le> p \<and> p \<le> 6 \<and> 15 * p = of_int k \<longrightarrow>
         fst (predict rows an) = 9132 - k)"
proof -
  have z: "fst (predict rows an) = 9132"
    if "ae_trend_pct an = None \<or> ae_trend_pct an = Some 0"
    using that predicted_time_value [of "ae_trend_pct an" 0]
    by (auto simp: predict_eq trend_modifier_def)
  have hi: "fst (predict rows an) = 9042" if "ae_trend_pct an = Some p" "6 \<le> p" for p
  proof -
    have "trend_modifier (Some p) = - 90" using that(2) by (simp add: trend_modifier_def)
    then have "real_of_rat (trend_modifier (Some p)) = of_int (- 90)" by simp
    from predicted_time_value [OF this] show ?thesis by (simp add: predict_eq that(1))
  qed
  have lo: "fst (predict rows an) = 9222" if "ae_trend_pct an = Some p" "p \<le> - 6" for p
  proof -
    have "trend_modifier (Some p) = 90" using that(2) by (simp add: trend_modifier_def)
    then have "real_of_rat (trend_modifier (Some p)) = of_int 90" by simp
    from predicted_time_value [OF this] show ?thesis by (simp add: predict_eq that(1))
  qed
  have mid: "fst (predict rows an) = 9132 - k"
    if "ae_trend_pct an = Some p" "- 6 \<le> p" "p \<le> 6" "15 * p = of_int k" for p k
  proof -
    have "trend_modifier (Some p) = - (15 * p)" using that(2,3) by (simp add: trend_modifier_def)
    then have "real_of_rat (trend_modifier (Some p)) = of_int (- k)"
      by (simp add: that(4) of_rat_minus)
    from predicted_time_value [OF this] show ?thesis by (simp add: predict_eq that(1))
  qed
  show ?thesis using predict_eq [of rows an] baseline_bounds z hi lo mid by blast
qed

theorem predict_formula_witness:
  "fst (predict [] (analysis_with None)) = 9132
   \<and> fst (predict [] (analysis_with (Some 0))) = 9132
   \<and> fst (predict [] (analysis_with (Some 10))) = 9042
   \<and> fst (predict [] (analysis_with (Some (- 7)))) = 9222
   \<and> fst (predict [] (analysis_with (Some (12 / 5)))) = 9096"
proof -
  have sel: "ae_trend_pct (analysis_with p) = p" for p
    by (simp add: analysis_with_def)
  have c1: "fst (predict [] (analysis_with None)) = 9132"
    using predict_formula [of "[]" "analysis_with None"] sel [of None] by blast
  have c2: "fst (predict [] (analysis_with (Some 0))) = 9132"
    using predict_formula [of "[]" "analysis_with (Some 0)"] sel [of "Some 0"] by blast
  have "(6 :: rat) \<le> 10" by simp
  then have c3: "fst (predict [] (analysis_with (Some 10))) = 9042"
    using predict_formula [of "[]" "analysis_with (Some 10)"] sel [of "Some 10"] by blast
  have "(- 7 :: rat) \<le> - 6" by simp
  then have c4: "fst (predict [] (analysis_with (Some (- 7)))) = 9222"
    using predict_formula [of "[]" "analysis_with (Some (- 7))"] sel [of "Some (- 7)"] by blast
  have "- 6 \<le> (12 / 5 :: rat)" "(12 / 5 :: rat) \<le> 6" "15 * (12 / 5 :: rat) = of_int 36"
    by simp_all
  then have "fst (predict [] (analysis_with (Some (12 / 5)))) = 9132 - 36"
    using predict_formula [of "[]" "analysis_with (Some (12 / 5))"] sel [of "Some (12 / 5)"]
    by blast
  then have c5: "fst (predict [] (analysis_with (Some (12 / 5)))) = 9096" by simp
  show ?thesis using c1 c2 c3 c4 c5 by (simp only: simp_thms)
qed

subsection \<open>Merger: heart-rate priority\<close>

lemma merge_by_exact: "merge_by (py_round 1) ex api = merge ex api"
proof -
  have k: "dup_key_by (py_round 1) = dup_key"
    by (simp add: fun_eq_iff dup_key_by_def dup_key_def)
  have "api_step_by (py_round 1) = api_step"
    by (intro ext) (simp only: api_step_by_def api_step_def k)
  then show ?thesis
    by (simp only: merge_by_def merge_def merge_master_by_def merge_master_def)
qed

lemma keyed_ids: "keyed m \<Longrightarrow> p \<in> set m \<Longrightarrow> activity_id (snd p) = fst p"
proof -
  assume k: "keyed m" and p: "p \<in> set m"
  from k have "map (\<lambda>p. activity_id (snd p)) m = map fst m" by (simp add: keyed_def)
  then have "\<forall>q \<in> set m. activity_id (snd q) = fst q" by (simp only: map_eq_conv)
  with p show ?thesis by blast
qed

lemma keyed_lookup: "keyed m \<Longrightarrow> p \<in> set m \<Longrightarrow> map_of m (fst p) = Some (snd p)"
  by (simp add: keyed_def)

lemma keyed_api_step_by: "keyed m \<Longrightarrow> keyed (api_step_by rnd r m)"
  by (auto simp: api_step_by_def keyed_update split: option.splits)
     (simp_all add: keyed_def map_entry_keys map_entry_ids set_hr_first_keys set_hr_first_ids)

lemma list_all_update:
  "list_all R m \<Longrightarrow> R (k, v) \<Longrightarrow> list_all R (AList.update k v m)"
  by (induction m) auto

lemma list_all_map_entry:
  "list_all R m \<Longrightarrow> (\<And>v. R (k, v) \<Longrightarrow> R (k, f v)) \<Longrightarrow> list_all R (AList.map_entry k f m)"
  by (induction m) auto

lemma map_of_map_entry_other: "k' \<noteq> k \<Longrightarrow> map_of (AList.map_entry k f m) k' = map_of m k'"
  by (induction m) auto

lemma map_of_map_entry_same:
  "map_of m k = Some v \<Longrightarrow> map_of (AList.map_entry k f m) k = Some (f v)"
  by (induction m) (auto split: if_splits)

lemma set_hr_first_map_entry:
  assumes "distinct (map fst m)" and "find P (map snd m) = Some x"
  shows "\<exists>k. map_of m k = Some x \<and> P x
    \<and> set_hr_first P h m = AList.map_entry k (\<lambda>v. v\<lparr>avg_hr := h\<rparr>) m"
  using assms
proof (induction m)
  case Nil
  then show ?case by simp
next
  case (Cons p m)
  obtain k0 v0 where p: "p = (k0, v0)" by (cases p)
  show ?case
  proof (cases "P v0")
    case True
    with Cons.prems p show ?thesis by (intro exI [of _ k0]) simp
  next
    case False
    with Cons.prems p have f: "find P (map snd m) = Some x" and d: "distinct (map fst m)"
      and n: "k0 \<notin> fst ` set m" by simp_all
    from Cons.IH [OF d f] obtain k where k: "map_of m k = Some x" "P x"
      "set_hr_first P h m = AList.map_entry k (\<lambda>v. v\<lparr>avg_hr := h\<rparr>) m" by blast
    from k(1) have "k \<in> fst ` set m" by (force dest: map_of_SomeD)
    with n have ne: "k0 \<noteq> k" by blast
    show ?thesis
      using k ne False p by (intro exI [of _ k]) simp
  qed
qed

lemma apart_hr [simp]: "apart rnd e a (v\<lparr>avg_hr := h\<rparr>) = apart rnd e a v"
  by (simp add: apart_def dup_key_by_def)

lemma stored_other_step:
  assumes s: "stored rnd e a c m" and b: "apart rnd e a b"
    and c: "dup_key_by rnd c = dup_key_by rnd e"
  shows "stored rnd e a c (api_step_by rnd b m)"
proof -
  let ?R = "\<lambda>p. fst p = activity_id e \<or> apart rnd e a (snd p)"
  let ?f = "\<lambda>v. v\<lparr>avg_hr := avg_hr b\<rparr>"
  from s have k: "keyed m" and l: "map_of m (activity_id e) = Some c" and r: "list_all ?R m"
    by (simp_all add: stored_def)
  from b have ne: "activity_id e \<noteq> activity_id b" by (auto simp: apart_def)
  have entry: "stored rnd e a c (AList.map_entry k' ?f m)" if "k' \<noteq> activity_id e" for k'
    unfolding stored_def
  proof (intro conjI)
    show "keyed (AList.map_entry k' ?f m)"
      using k by (simp add: keyed_def map_entry_keys map_entry_ids)
    show "map_of (AList.map_entry k' ?f m) (activity_id e) = Some c"
      using l that by (simp add: map_of_map_entry_other)
    show "list_all ?R (AList.map_entry k' ?f m)"
      using r by (rule list_all_map_entry) simp
  qed
  show ?thesis
  proof (cases "activity_id b \<in> fst ` set m")
    case True
    then show ?thesis
      using s entry [of "activity_id b"] ne by (simp add: api_step_by_def)
  next
    case False
    show ?thesis
    proof (cases "find (\<lambda>v. dup_key_by rnd v = dup_key_by rnd b) (map snd m)")
      case None
      have "stored rnd e a c (AList.update (activity_id b) b m)"
        unfolding stored_def
      proof (intro conjI)
        show "keyed (AList.update (activity_id b) b m)" using k by (simp add: keyed_update)
        show "map_of (AList.update (activity_id b) b m) (activity_id e) = Some c"
          using l ne by (simp add: update_conv')
        show "list_all ?R (AList.update (activity_id b) b m)"
          using r b by (intro list_all_update) simp_all
      qed
      then show ?thesis using False None by (simp add: api_step_by_def)
    next
      case (Some x)
      from k have d: "distinct (map fst m)" by (simp add: keyed_def)
      from set_hr_first_map_entry [OF d Some, of "avg_hr b"] obtain k' where
        k': "map_of m k' = Some x" "dup_key_by rnd x = dup_key_by rnd b"
        "set_hr_first (\<lambda>v. dup_key_by rnd v = dup_key_by rnd b) (avg_hr b) m
           = AList.map_entry k' ?f m" by blast
      have "k' \<noteq> activity_id e"
      proof
        assume "k' = activity_id e"
        with k'(1) l have "x = c" by simp
        with k'(2) c have "dup_key_by rnd b = dup_key_by rnd e" by simp
        with b show False by (simp add: apart_def)
      qed
      from entry [OF this] show ?thesis
        using False Some s k'(3) by (simp add: api_step_by_def)
    qed
  qed
qed

lemma merged_hr_key [simp]:
  "dup_key_by rnd (merged_hr e a) = dup_key_by rnd e"
  "activity_id (merged_hr e a) = activity_id e"
  by (simp_all add: merged_hr_def dup_key_by_def)

lemma stored_match_step:
  assumes s: "stored rnd e a c m" and c: "c = e \<or> c = merged_hr e a"
    and match: "activity_id e = activity_id a \<or> dup_key_by rnd e = dup_key_by rnd a"
  shows "stored rnd e a (merged_hr e a) (api_step_by rnd a m)"
proof -
  let ?R = "\<lambda>p. fst p = activity_id e \<or> apart rnd e a (snd p)"
  let ?f = "\<lambda>v. v\<lparr>avg_hr := avg_hr a\<rparr>"
  from s have k: "keyed m" and l: "map_of m (activity_id e) = Some c" and r: "list_all ?R m"
    by (simp_all add: stored_def)
  from l have mem: "(activity_id e, c) \<in> set m" by (rule map_of_SomeD)
  have fc: "truthy (avg_hr a) \<Longrightarrow> ?f c = merged_hr e a"
    using c by (auto simp: merged_hr_def)
  have nc: "\<not> truthy (avg_hr a) \<Longrightarrow> c = merged_hr e a"
    using c by (auto simp: merged_hr_def)
  have ck: "dup_key_by rnd c = dup_key_by rnd e" using c by auto
  have entry: "stored rnd e a (merged_hr e a) (AList.map_entry (activity_id e) ?f m)"
    if "truthy (avg_hr a)"
    unfolding stored_def
  proof (intro conjI)
    show "keyed (AList.map_entry (activity_id e) ?f m)"
      using k by (simp add: keyed_def map_entry_keys map_entry_ids)
    show "map_of (AList.map_entry (activity_id e) ?f m) (activity_id e) = Some (merged_hr e a)"
      using map_of_map_entry_same [OF l, of ?f] fc [OF that] by simp
    show "list_all ?R (AList.map_entry (activity_id e) ?f m)"
      using r by (rule list_all_map_entry) simp
  qed
  have same: "stored rnd e a (merged_hr e a) m" if "\<not> truthy (avg_hr a)"
    using s nc [OF that] by simp
  have others: "fst p = activity_id e" if "p \<in> set m" "\<not> apart rnd e a (snd p)" for p
    using r that by (auto simp: list_all_iff)
  show ?thesis
  proof (cases "activity_id a \<in> fst ` set m")
    case True
    then obtain p where p: "p \<in> set m" "fst p = activity_id a" by auto
    have "activity_id (snd p) = activity_id a" using keyed_ids [OF k p(1)] p(2) by simp
    then have "\<not> apart rnd e a (snd p)" by (simp add: apart_def)
    from others [OF p(1) this] p(2) have eq: "activity_id a = activity_id e" by simp
    show ?thesis
      using True entry same eq by (cases "truthy (avg_hr a)") (simp_all add: api_step_by_def)
  next
    case False
    with mem have "activity_id a \<noteq> activity_id e" by force
    with match have km: "dup_key_by rnd e = dup_key_by rnd a" by auto
    have "c \<in> set (map snd m)" using mem by force
    moreover have "dup_key_by rnd c = dup_key_by rnd a" using ck km by simp
    ultimately have "find (\<lambda>v. dup_key_by rnd v = dup_key_by rnd a) (map snd m) \<noteq> None"
      by (auto simp: find_None_iff)
    then obtain x where x: "find (\<lambda>v. dup_key_by rnd v = dup_key_by rnd a) (map snd m) = Some x"
      by blast
    from k have d: "distinct (map fst m)" by (simp add: keyed_def)
    from set_hr_first_map_entry [OF d x, of "avg_hr a"] obtain k' where
      k': "map_of m k' = Some x" "dup_key_by rnd x = dup_key_by rnd a"
      "set_hr_first (\<lambda>v. dup_key_by rnd v = dup_key_by rnd a) (avg_hr a) m
         = AList.map_entry k' ?f m" by blast
    from k'(1) have xm: "(k', x) \<in> set m" by (rule map_of_SomeD)
    have "\<not> apart rnd e a x" using k'(2) km by (simp add: apart_def)
    with others [OF xm] have "k' = activity_id e" by simp
    with k'(3) show ?thesis
      using False x entry same by (cases "truthy (avg_hr a)") (simp_all add: api_step_by_def)
  qed
qed

lemma stored_fold_api:
  assumes "\<forall>b \<in> set rs. b \<noteq> a \<longrightarrow> apart rnd e a b"
    and "activity_id e = activity_id a \<or> dup_key_by rnd e = dup_key_by rnd a"
    and "stored rnd e a c m" and "c = e \<or> c = merged_hr e a"
  shows "stored rnd e a (if a \<in> set rs then merged_hr e a else c) (fold (api_step_by rnd) rs m)"
  using assms(1,3,4)
proof (induction rs arbitrary: c m)
  case Nil
  then show ?case by simp
next
  case (Cons r rs)
  show ?case
  proof (cases "r = a")
    case True
    have "stored rnd e a (merged_hr e a) (api_step_by rnd a m)"
      using Cons.prems(2,3) assms(2) by (rule stored_match_step)
    from Cons.IH [OF _ this] Cons.prems(1) True show ?thesis by simp
  next
    case False
    with Cons.prems(1) have ap: "apart rnd e a r" by simp
    have ck: "dup_key_by rnd c = dup_key_by rnd e" using Cons.prems(3) by auto
    have "stored rnd e a c (api_step_by rnd r m)"
      using Cons.prems(2) ap ck by (rule stored_other_step)
    from Cons.IH [OF _ this Cons.prems(3)] Cons.prems(1) False show ?thesis by simp
  qed
qed

lemma seed_inv:
  assumes "\<forall>x \<in> set rs. x \<noteq> e \<longrightarrow> apart rnd e a x"
    and "keyed m"
    and "list_all (\<lambda>p. fst p = activity_id e \<or> apart rnd e a (snd p)) m"
    and "\<forall>v. map_of m (activity_id e) = Some v \<longrightarrow> v = e"
  shows "keyed (fold export_step rs m)
    \<and> list_all (\<lambda>p. fst p = activity_id e \<or> apart rnd e a (snd p)) (fold export_step rs m)
    \<and> (\<forall>v. map_of (fold export_step rs m) (activity_id e) = Some v \<longrightarrow> v = e)"
  using assms
proof (induction rs arbitrary: m)
  case Nil
  then show ?case by simp
next
  case (Cons r rs)
  let ?m = "export_step r m"
  have 1: "keyed ?m" using Cons.prems(2) by (rule keyed_export_step)
  have 2: "list_all (\<lambda>p. fst p = activity_id e \<or> apart rnd e a (snd p)) ?m"
    unfolding export_step_def using Cons.prems(3)
  proof (rule list_all_update)
    show "fst (activity_id r, r) = activity_id e \<or> apart rnd e a (snd (activity_id r, r))"
      using Cons.prems(1) by (cases "r = e") simp_all
  qed
  have 3: "\<forall>v. map_of ?m (activity_id e) = Some v \<longrightarrow> v = e"
  proof (cases "r = e")
    case True
    then show ?thesis by (simp add: export_step_def update_conv')
  next
    case False
    with Cons.prems(1) have "activity_id r \<noteq> activity_id e" by (simp add: apart_def)
    then show ?thesis using Cons.prems(4) by (simp add: export_step_def update_conv')
  qed
  from Cons.prems(1) have "\<forall>x \<in> set rs. x \<noteq> e \<longrightarrow> apart rnd e a x" by simp
  from Cons.IH [OF this 1 2 3] show ?case by simp
qed

lemma stored_seed:
  assumes "e \<in> set ex" and "\<forall>x \<in> set ex. x \<noteq> e \<longrightarrow> apart rnd e a x"
  shows "stored rnd e a e (fold export_step ex [])"
proof -
  from seed_inv [OF assms(2), of "[]"] have
    k: "keyed (fold export_step ex [])"
    and r: "list_all (\<lambda>p. fst p = activity_id e \<or> apart rnd e a (snd p)) (fold export_step ex [])"
    and u: "\<forall>v. map_of (fold export_step ex []) (activity_id e) = Some v \<longrightarrow> v = e"
    by (simp_all add: keyed_def)
  have "activity_id e \<in> fst ` set (fold export_step ex [])"
    using assms(1) by (simp add: keys_fold_export)
  then obtain v where "map_of (fold export_step ex []) (activity_id e) = Some v"
    by (metis map_of_eq_None_iff not_Some_eq)
  with u have "map_of (fold export_step ex []) (activity_id e) = Some e" by simp
  with k r show ?thesis by (simp add: stored_def)
qed

lemma stored_merge_master:
  assumes "e \<in> set ex" and "a \<in> set api"
    and "activity_id e = activity_id a \<or> dup_key_by rnd e = dup_key_by rnd a"
    and "\<forall>x \<in> set ex. x \<noteq> e \<longrightarrow> apart rnd e a x"
    and "\<forall>b \<in> set api. b \<noteq> a \<longrightarrow> apart rnd e a b"
  shows "stored rnd e a (merged_hr e a) (merge_master_by rnd ex api)"
  using stored_fold_api [OF assms(5,3) stored_seed [OF assms(1,4)]] assms(2)
  by (simp add: merge_master_by_def)

text \<open>
  C3 (as amended). Let an export row \<open>e\<close> and an API row \<open>a\<close> of the two input lists share
  an id or the key (date, distance rounded to one decimal place), and let every other export
  row and every other API row be apart from them: it has neither the id of \<open>e\<close> nor the id of
  \<open>a\<close>, and not the key of \<open>e\<close>. Then the merged rows hold exactly one row with the id of
  \<open>e\<close>: the export row with only its heart rate decided anew, the API's when that is
  non-empty and the export's own otherwise; date, distance and name are the export's. When
  the two ids differ, no merged row has the id of \<open>a\<close>. This holds whatever \<^verbatim>\<open>round\<close>
  computes.
\<close>

theorem hr_overwrite_priority:
  assumes "e \<in> set export_rows" and "a \<in> set api_rows"
    and "activity_id e = activity_id a \<or> dup_key_by rnd e = dup_key_by rnd a"
    and "\<forall>x \<in> set export_rows. x \<noteq> e \<longrightarrow> apart rnd e a x"
    and "\<forall>b \<in> set api_rows. b \<noteq> a \<longrightarrow> apart rnd e a b"
  shows "merged_hr e a \<in> set (merge_by rnd export_rows api_rows)
    \<and> (\<forall>r \<in> set (merge_by rnd export_rows api_rows).
          activity_id r = activity_id e \<longrightarrow> r = merged_hr e a)
    \<and> (activity_id a \<noteq> activity_id e \<longrightarrow>
          activity_id a \<notin> activity_id ` set (merge_by rnd export_rows api_rows))
    \<and> avg_hr (merged_hr e a) = (if truthy (avg_hr a) then avg_hr a else avg_hr e)
    \<and> date (merged_hr e a) = date e \<and> distance_km (merged_hr e a) = distance_km e
    \<and> name (merged_hr e a) = name e \<and> moving_secs (merged_hr e a) = moving_secs e"
proof -
  let ?M = "merge_master_by rnd export_rows api_rows"
  have s: "stored rnd e a (merged_hr e a) ?M" using assms by (rule stored_merge_master)
  then have k: "keyed ?M" and l: "map_of ?M (activity_id e) = Some (merged_hr e a)"
    and r: "list_all (\<lambda>p. fst p = activity_id e \<or> apart rnd e a (snd p)) ?M"
    by (simp_all add: stored_def)
  have set: "set (merge_by rnd export_rows api_rows) = snd ` set ?M"
    by (simp add: merge_by_def)
  have 1: "merged_hr e a \<in> set (merge_by rnd export_rows api_rows)"
    unfolding set using map_of_SomeD [OF l] by force
  have 2: "x = merged_hr e a"
    if "x \<in> set (merge_by rnd export_rows api_rows)" "activity_id x = activity_id e" for x
  proof -
    from that(1) obtain p where p: "p \<in> set ?M" "x = snd p" unfolding set by blast
    have "fst p = activity_id e" using keyed_ids [OF k p(1)] p(2) that(2) by simp
    with keyed_lookup [OF k p(1)] l p(2) show ?thesis by simp
  qed
  have 3: "activity_id a \<notin> activity_id ` set (merge_by rnd export_rows api_rows)"
    if ne: "activity_id a \<noteq> activity_id e"
  proof
    assume "activity_id a \<in> activity_id ` set (merge_by rnd export_rows api_rows)"
    then obtain p where p: "p \<in> set ?M" "activity_id (snd p) = activity_id a"
      unfolding set by force
    from r p(1) have "fst p = activity_id e \<or> apart rnd e a (snd p)"
      by (auto simp: list_all_iff)
    then show False
    proof
      assume "fst p = activity_id e"
      with keyed_ids [OF k p(1)] p(2) ne show False by simp
    next
      assume "apart rnd e a (snd p)"
      with p(2) show False by (simp add: apart_def)
    qed
  qed
  have 4: "avg_hr (merged_hr e a) = (if truthy (avg_hr a) then avg_hr a else avg_hr e)"
    "date (merged_hr e a) = date e" "distance_km (merged_hr e a) = distance_km e"
    "name (merged_hr e a) = name e" "moving_secs (merged_hr e a) = moving_secs e"
    by (simp_all add: merged_hr_def)
  show ?thesis using 1 2 3 4 by blast
qed

theorem hr_overwrite_priority_witness:
  "(export_131 ''A'')\<lparr>avg_hr := Some 150\<rparr>
      \<in> set (merge_by (py_round 1)
               [export_131 ''A'', (export_131 ''Z'')\<lparr>distance_km := 20\<rparr>]
               [run_b\<lparr>activity_id := ''C'', distance_km := 15\<rparr>, run_b])
   \<and> ''B'' \<notin> activity_id ` set (merge_by (py_round 1)
               [export_131 ''A'', (export_131 ''Z'')\<lparr>distance_km := 20\<rparr>]
               [run_b\<lparr>activity_id := ''C'', distance_km := 15\<rparr>, run_b])
   \<and> export_131 ''B''
      \<in> set (merge_by (py_round 1)
               [(export_131 ''Z'')\<lparr>distance_km := 20\<rparr>, export_131 ''B'']
               [run_b\<lparr>avg_hr := None\<rparr>, run_b\<lparr>activity_id := ''C'', distance_km := 15\<rparr>])"
proof -
  have r: "py_round (Suc 0) 10 = 10" "py_round (Suc 0) 15 = 15" "py_round (Suc 0) 20 = 20"
    by (simp_all add: round_defs)
  have 1: "merged_hr (export_131 ''A'') run_b = (export_131 ''A'')\<lparr>avg_hr := Some 150\<rparr>"
    by (simp add: merged_hr_def run_b_def truthy_def)
  have 2: "merged_hr (export_131 ''B'') (run_b\<lparr>avg_hr := None\<rparr>) = export_131 ''B''"
    by (simp add: merged_hr_def truthy_def)
  have a: "merged_hr (export_131 ''A'') run_b
             \<in> set (merge_by (py_round 1)
               [export_131 ''A'', (export_131 ''Z'')\<lparr>distance_km := 20\<rparr>]
               [run_b\<lparr>activity_id := ''C'', distance_km := 15\<rparr>, run_b])
     \<and> ''B'' \<notin> activity_id ` set (merge_by (py_round 1)
               [export_131 ''A'', (export_131 ''Z'')\<lparr>distance_km := 20\<rparr>]
               [run_b\<lparr>activity_id := ''C'', distance_km := 15\<rparr>, run_b])"
    using hr_overwrite_priority [of "export_131 ''A''"
        "[export_131 ''A'', (export_131 ''Z'')\<lparr>distance_km := 20\<rparr>]" run_b
        "[run_b\<lparr>activity_id := ''C'', distance_km := 15\<rparr>, run_b]" "py_round 1"]
    by (simp add: export_131_def run_b_def apart_def dup_key_by_def r)
  have b: "merged_hr (export_131 ''B'') (run_b\<lparr>avg_hr := None\<rparr>)
             \<in> set (merge_by (py_round 1)
               [(export_131 ''Z'')\<lparr>distance_km := 20\<rparr>, export_131 ''B'']
               [run_b\<lparr>avg_hr := None\<rparr>, run_b\<lparr>activity_id := ''C'', distance_km := 15\<rparr>])"
    using hr_overwrite_priority [of "export_131 ''B''"
        "[(export_131 ''Z'')\<lparr>distance_km := 20\<rparr>, export_131 ''B'']" "run_b\<lparr>avg_hr := None\<rparr>"
        "[run_b\<lparr>avg_hr := None\<rparr>, run_b\<lparr>activity_id := ''C'', distance_km := 15\<rparr>]"
        "py_round 1"]
    by (simp add: export_131_def run_b_def apart_def dup_key_by_def r)
  show ?thesis using a b unfolding 1 2 by (simp only: simp_thms)
qed

text \<open>
  C3 as stated fails for a pair that is not alone. Of two export rows with the key of an
  API row of another id, only the first stored one takes the API's heart rate: the second
  keeps 131 where the API has 150. And of two API rows with the id of an export row, the
  later one decides: the merged heart rate is 160, not the 150 of the first.
\<close>

theorem hr_overwrite_counterexample:
  "dup_key (export_131 ''E2'') = dup_key run_b \<and> avg_hr run_b = Some 150
   \<and> merge [export_131 ''E1'', export_131 ''E2''] [run_b]
       = [(export_131 ''E1'')\<lparr>avg_hr := Some 150\<rparr>, export_131 ''E2'']
   \<and> avg_hr (export_131 ''E2'') = Some 131
   \<and> activity_id (export_131 ''B'') = activity_id run_b
   \<and> merge [export_131 ''B''] [run_b, run_b\<lparr>avg_hr := Some 160\<rparr>]
       = [(export_131 ''B'')\<lparr>avg_hr := Some 160\<rparr>]"
  by (simp add: merge_def merge_master_def export_step_def api_step_def export_131_def
      run_b_def dup_key_def truthy_def)

subsection \<open>The parametrised analyser at the exact operations\<close>

lemma exact_sel:
  "f_add exact = (+)" "f_sub exact = (-)" "f_mul exact = (*)" "f_div exact = (/)"
  "f_sq exact = (\<lambda>x. x ^ 2)" "f_sum exact = sum_list" "f_round exact = py_round"
  "f_lit exact = (\<lambda>x. x)"
  by (simp_all add: exact_def)

lemma make_point_exact: "make_point_fp exact = make_point"
  unfolding fun_eq_iff make_point_fp_def make_point_def exact_sel by simp

lemma group_runs_exact: "group_runs_fp exact rs bw = group_runs rs bw"
  by (induction rs arbitrary: bw)
     (simp_all add: make_point_exact split: sum.splits option.splits)

lemma week_stats_of_exact: "week_stats_of_fp exact = week_stats_of"
  unfolding fun_eq_iff week_stats_of_fp_def week_stats_of_def exact_sel by simp

lemma make_wk_ae_exact: "make_wk_ae_fp exact = make_wk_ae"
  unfolding fun_eq_iff make_wk_ae_fp_def make_wk_ae_def week_stats_of_exact by simp

lemma trend_exact: "trend_fp exact = trend"
  unfolding fun_eq_iff trend_fp_def trend_def exact_sel by simp

lemma regression_exact: "regression_fp exact = regression"
  unfolding fun_eq_iff regression_fp_def regression_def mp_speed_fp_def mp_speed_def exact_sel
  by simp


lemma red_zone_exact: "red_zone_fp exact = red_zone"
  unfolding fun_eq_iff red_zone_fp_def red_zone_def est_max_hr_fp_def est_max_hr_def exact_sel
  by simp

lemma buffer_exact: "buffer_fp exact = buffer"
  unfolding fun_eq_iff buffer_fp_def buffer_def exact_sel by simp

lemma delta_wk_exact: "delta_wk_fp exact = delta_wk"
  unfolding fun_eq_iff delta_wk_fp_def delta_wk_def exact_sel by simp

lemma analyse_exact: "analyse_fp exact rows = analyse rows"
  unfolding analyse_fp_def analyse_def group_runs_exact make_wk_ae_exact trend_exact
    regression_exact red_zone_exact buffer_exact delta_wk_exact ..


subsection \<open>Parametrised analyser: grouping by week\<close>




lemma group_runs_fp_distinct:
  "group_runs_fp ar rs bw = Inr bw' \<Longrightarrow> distinct (map fst bw) \<Longrightarrow> distinct (map fst bw')"
proof (induction rs arbitrary: bw)
  case Nil
  then show ?case by simp
next
  case (Cons r rs)
  then show ?case
    by (auto split: sum.splits option.splits if_splits intro: dd_append_distinct)
qed




lemma analyse_fp_fields:
  assumes "analyse_fp ar rows = Inr A"
  obtains bw m where "group_runs_fp ar (hr_runs rows) [] = Inr bw"
    and "by_week A = make_wk_ae_fp ar bw"
    and "trend_fp ar (make_wk_ae_fp ar bw) = Inr (ae_trend A, ae_trend_pct A)"
    and "hr_at_mp A = regression_fp ar (concat (map snd bw))"
    and "max_avg_hr (hr_runs rows) = Inr m"
    and "red_zone_hr A = red_zone_fp ar m"
    and "hr_buffer A = buffer_fp ar (red_zone_hr A) (hr_at_mp A)"
    and "delta_wk_fp ar (make_wk_ae_fp ar bw) = Inr (ae_delta_wk A)"
  using assms unfolding analyse_fp_def Let_def
  by (auto split: sum.splits prod.splits)




subsection \<open>Parametrised analyser: trend\<close>

lemma trend_fp_short:
  "length wk < 2 \<Longrightarrow> trend_fp ar wk = Inr (''insufficient data'', None)"
  by (simp add: trend_fp_def)

lemma trend_fp_long:
  assumes d: "distinct (map fst wk)" and n: "2 \<le> length wk"
  shows "trend_fp ar wk =
     (if half_mean ar (take (length wk div 2) (week_aes wk)) = 0 then Inl ZeroDivisionError
      else Inr (trend_label (rounded_change ar (week_aes wk)),
                Some (rounded_change ar (week_aes wk))))"
proof -
  let ?S = "sort_key fst wk"
  let ?mid = "length wk div 2"
  have wks: "sort (map fst wk) = map fst ?S" by (simp add: map_sort_key)
  have t: "lookup_ae wk (take ?mid (sort (map fst wk)))
             = Inr (take ?mid (week_aes wk))"
    unfolding wks take_map week_aes_def
    by (rule lookup_ae_map [OF d]) (use set_take_subset [of ?mid ?S] in simp)
  have dr: "lookup_ae wk (drop ?mid (sort (map fst wk)))
             = Inr (drop ?mid (week_aes wk))"
    unfolding wks drop_map week_aes_def
    by (rule lookup_ae_map [OF d]) (use set_drop_subset [of ?mid ?S] in simp)
  have l: "length (week_aes wk) = length wk" by (simp add: week_aes_def)
  have lt: "length (take ?mid (week_aes wk)) = ?mid"
    and ld: "length (drop ?mid (week_aes wk)) = length wk - ?mid"
    by (simp_all add: l)
  have m1: "f_div ar (f_sum ar (take ?mid (week_aes wk))) (of_nat ?mid)
              = half_mean ar (take ?mid (week_aes wk))"
    unfolding half_mean_def lt ..
  have m2: "f_div ar (f_sum ar (drop ?mid (week_aes wk))) (of_nat (length wk - ?mid))
              = half_mean ar (drop ?mid (week_aes wk))"
    unfolding half_mean_def ld ..
  show ?thesis
    unfolding trend_fp_def Let_def length_sort length_map t dr sum.case m1 m2
    using n by (simp add: rounded_change_def trend_label_def l)
qed

text \<open>
  C6 (as amended). With fewer than two populated weeks the trend is "insufficient data"
  with no percentage. With at least two, the efficiencies in week order are split at
  \<open>mid = count div 2\<close>, each half is averaged, and the percentage is
  \<open>(second - first) / first * 100\<close> rounded to one decimal place, all as the code computes
  them; the label is decided on the rounded percentage: improving iff it is above 1,
  declining iff it is below -1, stable otherwise. This needs a first-half average other than
  zero (the code divides by it), and it holds whatever the float operations compute. With
  exact operations a constant efficiency other than zero gives "stable" and 0.0.
\<close>

theorem trend_classification:
  assumes "distinct (map fst wk)"
  shows "(length wk < 2 \<longrightarrow> trend_fp ar wk = Inr (''insufficient data'', None))
    \<and> (2 \<le> length wk \<and> half_mean ar (take (length wk div 2) (week_aes wk)) \<noteq> 0 \<longrightarrow>
         trend_fp ar wk = Inr (trend_label (rounded_change ar (week_aes wk)),
                               Some (rounded_change ar (week_aes wk))))
    \<and> (2 \<le> length wk \<and> c \<noteq> 0 \<and> (\<forall>x \<in> set (week_aes wk). x = c) \<longrightarrow>
         trend_fp exact wk = Inr (''stable'', Some 0))
    \<and> (trend_label p = ''improving'' \<longleftrightarrow> 1 < p)
    \<and> (trend_label p = ''declining'' \<longleftrightarrow> p < - 1)
    \<and> (trend_label p = ''stable'' \<longleftrightarrow> - 1 \<le> p \<and> p \<le> 1)"
proof -
  have a: "length wk < 2 \<longrightarrow> trend_fp ar wk = Inr (''insufficient data'', None)"
    by (simp add: trend_fp_short)
  have b: "2 \<le> length wk \<and> half_mean ar (take (length wk div 2) (week_aes wk)) \<noteq> 0 \<longrightarrow>
         trend_fp ar wk = Inr (trend_label (rounded_change ar (week_aes wk)),
                               Some (rounded_change ar (week_aes wk)))"
    using trend_fp_long [OF assms] by simp
  have c: "trend_fp exact wk = Inr (''stable'', Some 0)"
    if n: "2 \<le> length wk" and c0: "c \<noteq> 0" and all: "\<forall>x \<in> set (week_aes wk). x = c"
  proof -
    let ?mid = "length wk div 2"
    have l: "length (week_aes wk) = length wk" by (simp add: week_aes_def)
    have t: "mean (take ?mid (week_aes wk)) = c"
    proof (rule mean_const)
      show "x = c" if "x \<in> set (take ?mid (week_aes wk))" for x
        using that all by (meson in_set_takeD)
      show "take ?mid (week_aes wk) \<noteq> []" using n l by auto
    qed
    have d: "mean (drop ?mid (week_aes wk)) = c"
    proof (rule mean_const)
      show "x = c" if "x \<in> set (drop ?mid (week_aes wk))" for x
        using that all by (meson in_set_dropD)
      show "drop ?mid (week_aes wk) \<noteq> []" using n l by auto
    qed
    have "percent_change (week_aes wk) = 0"
      by (simp add: percent_change_def l t d)
    then show ?thesis
      unfolding trend_exact
      using trend_long [OF assms n] t c0 by (simp add: py_round_0 trend_label_def)
  qed
  have l1: "trend_label p = ''improving'' \<longleftrightarrow> 1 < p"
    and l2: "trend_label p = ''declining'' \<longleftrightarrow> p < - 1"
    and l3: "trend_label p = ''stable'' \<longleftrightarrow> - 1 \<le> p \<and> p \<le> 1"
    by (auto simp: trend_label_def)
  show ?thesis using a b c l1 l2 l3 by blast
qed

theorem trend_classification_witness:
  "trend_fp exact [week_entry 3 20] = Inr (''insufficient data'', None)
   \<and> trend_fp exact [week_entry 2 21, week_entry 1 20, week_entry 3 25]
       = Inr (''improving'', Some 15)
   \<and> trend_fp exact [week_entry 1 20, week_entry 2 20, week_entry 3 20]
       = Inr (''stable'', Some 0)"
proof -
  have d1: "distinct (map fst [week_entry 3 20])"
    and d2: "distinct (map fst [week_entry 2 21, week_entry 1 20, week_entry 3 25])"
    and d3: "distinct (map fst [week_entry 1 20, week_entry 2 20, week_entry 3 20])"
    by (simp_all add: week_entry_def)
  have a2: "week_aes [week_entry 2 21, week_entry 1 20, week_entry 3 25] = [20, 21, 25]"
    and a3: "week_aes [week_entry 1 20, week_entry 2 20, week_entry 3 20] = [20, 20, 20]"
    by (simp_all add: week_aes_def week_entry_def)
  have p2: "rounded_change exact [20, 21, 25] = 15"
    by (simp add: rounded_change_def half_mean_def exact_sel round_defs)
  have h2: "half_mean exact (take (length [week_entry 2 21, week_entry 1 20, week_entry 3 25]
              div 2) [20, 21, 25]) \<noteq> 0"
    by (simp add: half_mean_def exact_sel)
  have c1: "trend_fp exact [week_entry 3 20] = Inr (''insufficient data'', None)"
    using trend_classification [OF d1, of exact 20 15] by simp
  have c2: "trend_fp exact [week_entry 2 21, week_entry 1 20, week_entry 3 25]
              = Inr (''improving'', Some 15)"
    using trend_classification [OF d2, of exact 20 15] h2 by (simp add: a2 p2)
  have c3: "trend_fp exact [week_entry 1 20, week_entry 2 20, week_entry 3 20]
              = Inr (''stable'', Some 0)"
    using trend_classification [OF d3, of exact 20 15] by (simp add: a3)
  show ?thesis using c1 c2 c3 by (simp only: simp_thms)
qed

lemma analyse_two_week_rows:
  "analyse two_week_rows =
     Inr \<lparr>by_week =
            [(1, \<lparr>wk_ae = 20, wk_avg_hr = 200, wk_avg_pace_minkm = 417 / 100, wk_n = 1\<rparr>),
             (2, \<lparr>wk_ae = 202081 / 10000, wk_avg_hr = 1979 / 10,
                  wk_avg_pace_minkm = 417 / 100, wk_n = 1\<rparr>)],
          ae_trend = ''stable'', ae_trend_pct = Some 1, ae_delta_wk = Some 1,
          hr_at_mp = None, red_zone_hr = 1008 / 5, hr_buffer = None,
          current_week = Some 2\<rparr>"
  by (simp add: two_week_rows_def week_run_def analyse_defs weeks round_defs power2_eq_square)

text \<open>
  C6 as stated fails: for weekly efficiencies 20 and 20.2081 the change
  \<open>(second - first) / first * 100\<close> is 1.0405, above 1, and the trend is "stable", because
  the label is decided on the change rounded to 1.0.
\<close>

theorem trend_rounding_counterexample:
  "analyse_fp exact two_week_rows =
     Inr \<lparr>by_week =
            [(1, \<lparr>wk_ae = 20, wk_avg_hr = 200, wk_avg_pace_minkm = 417 / 100, wk_n = 1\<rparr>),
             (2, \<lparr>wk_ae = 202081 / 10000, wk_avg_hr = 1979 / 10,
                  wk_avg_pace_minkm = 417 / 100, wk_n = 1\<rparr>)],
          ae_trend = ''stable'', ae_trend_pct = Some 1, ae_delta_wk = Some 1,
          hr_at_mp = None, red_zone_hr = 1008 / 5, hr_buffer = None,
          current_week = Some 2\<rparr>
   \<and> percent_change [20, 202081 / 10000] = 2081 / 2000
   \<and> 1 < percent_change [20, 202081 / 10000]
   \<and> trend_label (percent_change [20, 202081 / 10000]) = ''improving''"
proof -
  have p: "percent_change [20, 202081 / 10000] = 2081 / 2000"
    by (simp add: percent_change_def mean_def)
  show ?thesis
    unfolding p analyse_exact using analyse_two_week_rows by (simp add: trend_label_def)
qed

lemma analyse_fp_trend:
  assumes "analyse_fp ar rows = Inr A"
  shows "distinct (map fst (by_week A))"
    and "trend_fp ar (by_week A) = Inr (ae_trend A, ae_trend_pct A)"
proof -
  from assms obtain bw where g: "group_runs_fp ar (hr_runs rows) [] = Inr bw"
    and w: "by_week A = make_wk_ae_fp ar bw"
    and t: "trend_fp ar (make_wk_ae_fp ar bw) = Inr (ae_trend A, ae_trend_pct A)"
    by (rule analyse_fp_fields)
  have "distinct (map fst bw)" using group_runs_fp_distinct [OF g] by simp
  then have "distinct (sort (map fst bw))" by simp
  moreover have "map fst (make_wk_ae_fp ar bw) = sort (map fst bw)"
    by (simp add: make_wk_ae_fp_def map_sort_key [symmetric] case_prod_unfold comp_def)
  ultimately show "distinct (map fst (by_week A))" by (simp add: w)
  show "trend_fp ar (by_week A) = Inr (ae_trend A, ae_trend_pct A)" using t w by simp
qed

end
